theory Spec2Isabelle
  imports Main
begin

section \<open>TM1py.Utils: insensitive ordered maps and the cellset flattener\<close>

text \<open>
  A shallow embedding of \<^verbatim>\<open>src/TM1py/Utils/Utils.py\<close>. Python strings are
  \<^typ>\<open>string\<close> (the bytes of their UTF-8 encoding), tuples and lists of strings are \<^typ>\<open>string list\<close>, an
  \<^verbatim>\<open>OrderedDict\<close> is an association list with pairwise different keys in
  insertion order, and every exception the code can raise is a value \<open>Inl e\<close> of
  the result type \<open>error + 'a\<close>.
\<close>

subsection \<open>Exceptions\<close>

text \<open>
  The two exceptions raised by the modelled code: \<^verbatim>\<open>KeyError\<close> (a missing dictionary
  key; the specification's \<^verbatim>\<open>KeyNotFound\<close>) and \<^verbatim>\<open>IndexError\<close> (a list index out
  of range; raised by \<^verbatim>\<open>address_element[0]\<close> it is the specification's
  \<^verbatim>\<open>DimensionNotFound\<close>).
\<close>

datatype error = KeyError | IndexError

text \<open>\<^verbatim>\<open>xs[i]\<close> for a list and a non-negative index.\<close>

definition list_index :: "'a list \<Rightarrow> nat \<Rightarrow> error + 'a" where
  "list_index xs i = (if i < length xs then Inr (xs ! i) else Inl IndexError)"

subsection \<open>String methods\<close>

text \<open>
  A Python string is held as the sequence of the bytes of its UTF-8 encoding, so every
  string, ASCII or not, is a \<^typ>\<open>string\<close>. The operations the code applies to strings
  (\<^verbatim>\<open>+\<close>, \<^verbatim>\<open>==\<close>, \<^verbatim>\<open>startswith\<close>, \<^verbatim>\<open>replace(' ', '')\<close>) act on the encoding as
  they act on the code points: the byte 32 occurs in an encoding only as the space
  character, and one encoding is a prefix of another exactly when the code points are.
\<close>

text \<open>
  \<^verbatim>\<open>str.lower()\<close> is a builtin of Python, not code of this repository. On a string of
  ASCII characters only it moves the letters \<^verbatim>\<open>A\<close>..\<^verbatim>\<open>Z\<close> (codes 65..90) to
  \<^verbatim>\<open>a\<close>..\<^verbatim>\<open>z\<close> and keeps every other character. On any other string it applies the
  lower-casing of the Unicode standard, which depends on the context of a character and
  may change the length of the string; that function is the parameter \<open>ulower\<close> of
  \<^verbatim>\<open>lower\<close> and of every definition that calls it, and nothing is assumed about it
  unless a theorem says so.
\<close>

type_synonym str_lower = "string \<Rightarrow> string"

definition lower_char :: "char \<Rightarrow> char" where
  "lower_char c =
     (if 65 \<le> (of_char c :: nat) \<and> (of_char c :: nat) \<le> 90
      then char_of ((of_char c :: nat) + 32) else c)"

definition is_ascii :: "string \<Rightarrow> bool" where
  "is_ascii s = list_all (\<lambda>c. (of_char c :: nat) < 128) s"

definition lower :: "str_lower \<Rightarrow> string \<Rightarrow> string" where
  "lower ulower s = (if is_ascii s then map lower_char s else ulower s)"

text \<open>
  A lower-casing to instantiate the parameter with: \<^verbatim>\<open>str.lower()\<close> on the strings
  whose code points lie below U+0100. The capital letters of the Latin-1 supplement,
  U+00C0 to U+00DE without the multiplication sign U+00D7, are encoded as the byte 195
  followed by a byte from 128 to 158 (without 151); their small letters lie 32 higher.
\<close>

fun latin1_lower :: "string \<Rightarrow> string" where
  "latin1_lower [] = []"
| "latin1_lower [c] = [lower_char c]"
| "latin1_lower (c # c' # s) =
     (if (of_char c :: nat) = 195 \<and> 128 \<le> (of_char c' :: nat) \<and> (of_char c' :: nat) \<le> 158
         \<and> (of_char c' :: nat) \<noteq> 151
      then c # char_of ((of_char c' :: nat) + 32) # latin1_lower s
      else lower_char c # latin1_lower (c' # s))"

text \<open>
  The name of Austria in German, with a capital and with a small O-umlaut (U+00D6 and
  U+00F6, encoded as the bytes 195, 150 and 195, 182): two labels that differ in the case
  of a letter outside ASCII.
\<close>

definition Oesterreich :: string where
  "Oesterreich = CHR 0xC3 # CHR 0x96 # ''sterreich''"

definition oesterreich :: string where
  "oesterreich = CHR 0xC3 # CHR 0xB6 # ''sterreich''"

text \<open>\<^verbatim>\<open>s.replace(' ', '')\<close>: every space character is dropped.\<close>

definition replace_spaces :: "string \<Rightarrow> string" where
  "replace_spaces s = filter (\<lambda>c. c \<noteq> CHR '' '') s"

text \<open>\<^verbatim>\<open>s.startswith(p)\<close>.\<close>

definition startswith :: "string \<Rightarrow> string \<Rightarrow> bool" where
  "startswith s p = (take (length p) s = p)"

text \<open>
  The lookup key of both dictionaries: \<^verbatim>\<open>key.lower().replace(' ', '')\<close>, and for a
  tuple key \<^verbatim>\<open>tuple([item.lower().replace(' ', '') for item in key])\<close>.
\<close>

definition adjust :: "str_lower \<Rightarrow> string \<Rightarrow> string" where
  "adjust ulower key = replace_spaces (lower ulower key)"

definition adjust_tuple :: "str_lower \<Rightarrow> string list \<Rightarrow> string list" where
  "adjust_tuple ulower key = map (adjust ulower) key"

subsection \<open>\<^verbatim>\<open>collections.OrderedDict\<close>\<close>

type_synonym ('k, 'v) OrderedDict = "('k \<times> 'v) list"

text \<open>
  \<^verbatim>\<open>d[k] = v\<close>: an existing key keeps its position and gets the new value, a new key
  is appended.
\<close>

fun od_setitem :: "('k, 'v) OrderedDict \<Rightarrow> 'k \<Rightarrow> 'v \<Rightarrow> ('k, 'v) OrderedDict" where
  "od_setitem [] k v = [(k, v)]"
| "od_setitem ((k', v') # d) k v =
     (if k' = k then (k', v) # d else (k', v') # od_setitem d k v)"

text \<open>\<^verbatim>\<open>d[k]\<close>: raises \<^verbatim>\<open>KeyError\<close> for a missing key.\<close>

fun od_getitem :: "('k, 'v) OrderedDict \<Rightarrow> 'k \<Rightarrow> error + 'v" where
  "od_getitem [] k = Inl KeyError"
| "od_getitem ((k', v') # d) k = (if k' = k then Inr v' else od_getitem d k)"

text \<open>\<^verbatim>\<open>del d[k]\<close>: raises \<^verbatim>\<open>KeyError\<close> for a missing key.\<close>

fun od_delitem :: "('k, 'v) OrderedDict \<Rightarrow> 'k \<Rightarrow> error + ('k, 'v) OrderedDict" where
  "od_delitem [] k = Inl KeyError"
| "od_delitem ((k', v') # d) k =
     (if k' = k then Inr d
      else (case od_delitem d k of Inl e \<Rightarrow> Inl e | Inr d' \<Rightarrow> Inr ((k', v') # d')))"

subsection \<open>\<^verbatim>\<open>CaseAndSpaceInsensitiveDict\<close>\<close>

text \<open>
  An instance is its only attribute \<^verbatim>\<open>_store\<close>: an ordered dictionary from the
  adjusted key to the pair of the key as written and the value.
\<close>

type_synonym 'v CaseAndSpaceInsensitiveDict = "(string, string \<times> 'v) OrderedDict"

definition Dict_setitem ::
  "str_lower \<Rightarrow> 'v CaseAndSpaceInsensitiveDict \<Rightarrow> string \<Rightarrow> 'v \<Rightarrow> 'v CaseAndSpaceInsensitiveDict" where
  "Dict_setitem ulower store key val = od_setitem store (adjust ulower key) (key, val)"

definition Dict_getitem :: "str_lower \<Rightarrow> 'v CaseAndSpaceInsensitiveDict \<Rightarrow> string \<Rightarrow> error + 'v" where
  "Dict_getitem ulower store key =
     (case od_getitem store (adjust ulower key) of Inl e \<Rightarrow> Inl e | Inr kv \<Rightarrow> Inr (snd kv))"

definition Dict_delitem ::
  "str_lower \<Rightarrow> 'v CaseAndSpaceInsensitiveDict \<Rightarrow> string \<Rightarrow> error + 'v CaseAndSpaceInsensitiveDict" where
  "Dict_delitem ulower store key = od_delitem store (adjust ulower key)"

text \<open>\<^verbatim>\<open>__iter__\<close>: the keys as written, in the order of the store.\<close>

definition Dict_iter :: "'v CaseAndSpaceInsensitiveDict \<Rightarrow> string list" where
  "Dict_iter store = map (\<lambda>(adjusted_key, casedkey, mappedvalue). casedkey) store"

definition Dict_len :: "'v CaseAndSpaceInsensitiveDict \<Rightarrow> nat" where
  "Dict_len store = length store"

text \<open>
  \<^verbatim>\<open>items()\<close> of \<^verbatim>\<open>MutableMapping\<close>: for every key of \<^verbatim>\<open>__iter__\<close> the pair of the
  key and \<^verbatim>\<open>self[key]\<close>.
\<close>

definition Dict_items :: "str_lower \<Rightarrow> 'v CaseAndSpaceInsensitiveDict \<Rightarrow> (string \<times> (error + 'v)) list" where
  "Dict_items ulower store = map (\<lambda>key. (key, Dict_getitem ulower store key)) (Dict_iter store)"

definition Dict_adjusted_items :: "'v CaseAndSpaceInsensitiveDict \<Rightarrow> (string \<times> 'v) list" where
  "Dict_adjusted_items store =
     map (\<lambda>(adjusted_key, key_value). (adjusted_key, snd key_value)) store"

definition Dict_adjusted_keys :: "'v CaseAndSpaceInsensitiveDict \<Rightarrow> string list" where
  "Dict_adjusted_keys store = map (\<lambda>(adjusted_key, key_value). adjusted_key) store"

text \<open>
  \<^verbatim>\<open>__init__(data)\<close> for a sequence of pairs: \<^verbatim>\<open>MutableMapping.update\<close> runs
  \<^verbatim>\<open>self[key] = value\<close> for every pair, in order, on the empty store.
\<close>

definition Dict_init :: "str_lower \<Rightarrow> (string \<times> 'v) list \<Rightarrow> 'v CaseAndSpaceInsensitiveDict" where
  "Dict_init ulower data = foldl (\<lambda>store (key, val). Dict_setitem ulower store key val) [] data"

text \<open>\<^verbatim>\<open>copy()\<close>: a new instance built from \<^verbatim>\<open>self._store.values()\<close>.\<close>

definition Dict_copy :: "str_lower \<Rightarrow> 'v CaseAndSpaceInsensitiveDict \<Rightarrow> 'v CaseAndSpaceInsensitiveDict" where
  "Dict_copy ulower store = Dict_init ulower (map snd store)"

subsection \<open>\<^verbatim>\<open>CaseAndSpaceInsensitiveTuplesDict\<close>\<close>

type_synonym 'v CaseAndSpaceInsensitiveTuplesDict =
  "(string list, string list \<times> 'v) OrderedDict"

definition TuplesDict_setitem ::
  "str_lower \<Rightarrow> 'v CaseAndSpaceInsensitiveTuplesDict \<Rightarrow> string list \<Rightarrow> 'v
     \<Rightarrow> 'v CaseAndSpaceInsensitiveTuplesDict" where
  "TuplesDict_setitem ulower store key val = od_setitem store (adjust_tuple ulower key) (key, val)"

definition TuplesDict_getitem ::
  "str_lower \<Rightarrow> 'v CaseAndSpaceInsensitiveTuplesDict \<Rightarrow> string list \<Rightarrow> error + 'v" where
  "TuplesDict_getitem ulower store key =
     (case od_getitem store (adjust_tuple ulower key) of Inl e \<Rightarrow> Inl e | Inr kv \<Rightarrow> Inr (snd kv))"

definition TuplesDict_delitem ::
  "str_lower \<Rightarrow> 'v CaseAndSpaceInsensitiveTuplesDict \<Rightarrow> string list
     \<Rightarrow> error + 'v CaseAndSpaceInsensitiveTuplesDict" where
  "TuplesDict_delitem ulower store key = od_delitem store (adjust_tuple ulower key)"

definition TuplesDict_iter :: "'v CaseAndSpaceInsensitiveTuplesDict \<Rightarrow> string list list" where
  "TuplesDict_iter store = map (\<lambda>(adjusted_key, casedkey, mappedvalue). casedkey) store"

definition TuplesDict_len :: "'v CaseAndSpaceInsensitiveTuplesDict \<Rightarrow> nat" where
  "TuplesDict_len store = length store"

definition TuplesDict_items ::
  "str_lower \<Rightarrow> 'v CaseAndSpaceInsensitiveTuplesDict \<Rightarrow> (string list \<times> (error + 'v)) list" where
  "TuplesDict_items ulower store =
     map (\<lambda>key. (key, TuplesDict_getitem ulower store key)) (TuplesDict_iter store)"

definition TuplesDict_adjusted_keys ::
  "'v CaseAndSpaceInsensitiveTuplesDict \<Rightarrow> string list list" where
  "TuplesDict_adjusted_keys store = map (\<lambda>(adjusted_key, key_value). adjusted_key) store"

definition TuplesDict_init ::
  "str_lower \<Rightarrow> (string list \<times> 'v) list \<Rightarrow> 'v CaseAndSpaceInsensitiveTuplesDict" where
  "TuplesDict_init ulower data = foldl (\<lambda>store (key, val). TuplesDict_setitem ulower store key val) [] data"

definition TuplesDict_copy ::
  "str_lower \<Rightarrow> 'v CaseAndSpaceInsensitiveTuplesDict \<Rightarrow> 'v CaseAndSpaceInsensitiveTuplesDict" where
  "TuplesDict_copy ulower store = TuplesDict_init ulower (map snd store)"

subsection \<open>Instances as objects\<close>

text \<open>
  Both dictionaries are mutable objects, and \<^verbatim>\<open>m2 = m1.copy()\<close> makes a second
  object. Where a property is about two objects at once, the objects live in a heap
  (the list of all instances) and a reference is an index into it; \<^verbatim>\<open>copy\<close>
  allocates, \<^verbatim>\<open>__setitem__\<close> updates the object its reference points to.
\<close>

type_synonym 'obj heap = "'obj list"

definition heap_new :: "'obj heap \<Rightarrow> 'obj \<Rightarrow> 'obj heap \<times> nat" where
  "heap_new h obj = (h @ [obj], length h)"

definition Dict_copy_ref ::
  "str_lower \<Rightarrow> 'v CaseAndSpaceInsensitiveDict heap \<Rightarrow> nat
     \<Rightarrow> 'v CaseAndSpaceInsensitiveDict heap \<times> nat" where
  "Dict_copy_ref ulower h m = heap_new h (Dict_copy ulower (h ! m))"

definition Dict_setitem_ref ::
  "str_lower \<Rightarrow> 'v CaseAndSpaceInsensitiveDict heap \<Rightarrow> nat \<Rightarrow> string \<Rightarrow> 'v
     \<Rightarrow> 'v CaseAndSpaceInsensitiveDict heap" where
  "Dict_setitem_ref ulower h m key val = h[m := Dict_setitem ulower (h ! m) key val]"

definition Dict_getitem_ref ::
  "str_lower \<Rightarrow> 'v CaseAndSpaceInsensitiveDict heap \<Rightarrow> nat \<Rightarrow> string \<Rightarrow> error + 'v" where
  "Dict_getitem_ref ulower h m key = Dict_getitem ulower (h ! m) key"

definition TuplesDict_copy_ref ::
  "str_lower \<Rightarrow> 'v CaseAndSpaceInsensitiveTuplesDict heap \<Rightarrow> nat
     \<Rightarrow> 'v CaseAndSpaceInsensitiveTuplesDict heap \<times> nat" where
  "TuplesDict_copy_ref ulower h m = heap_new h (TuplesDict_copy ulower (h ! m))"

definition TuplesDict_setitem_ref ::
  "str_lower \<Rightarrow> 'v CaseAndSpaceInsensitiveTuplesDict heap \<Rightarrow> nat \<Rightarrow> string list \<Rightarrow> 'v
     \<Rightarrow> 'v CaseAndSpaceInsensitiveTuplesDict heap" where
  "TuplesDict_setitem_ref ulower h m key val = h[m := TuplesDict_setitem ulower (h ! m) key val]"

definition TuplesDict_getitem_ref ::
  "str_lower \<Rightarrow> 'v CaseAndSpaceInsensitiveTuplesDict heap \<Rightarrow> nat \<Rightarrow> string list \<Rightarrow> error + 'v" where
  "TuplesDict_getitem_ref ulower h m key = TuplesDict_getitem ulower (h ! m) key"

subsection \<open>The invariant of a store\<close>

text \<open>
  \<^verbatim>\<open>_store\<close> is written by \<^verbatim>\<open>__setitem__\<close> and \<^verbatim>\<open>__delitem__\<close> only, so in every
  instance the keys of the store are pairwise different and each is the adjusted form of
  the cased key stored beside the value.
\<close>

definition od_invariant :: "('c \<Rightarrow> 'k) \<Rightarrow> ('k, 'c \<times> 'v) OrderedDict \<Rightarrow> bool" where
  "od_invariant adj store =
     (distinct (map fst store) \<and>
      list_all (\<lambda>(adjusted_key, casedkey, mappedvalue). adjusted_key = adj casedkey) store)"

definition Dict_invariant :: "str_lower \<Rightarrow> 'v CaseAndSpaceInsensitiveDict \<Rightarrow> bool" where
  "Dict_invariant ulower store = od_invariant (adjust ulower) store"

definition TuplesDict_invariant :: "str_lower \<Rightarrow> 'v CaseAndSpaceInsensitiveTuplesDict \<Rightarrow> bool" where
  "TuplesDict_invariant ulower store = od_invariant (adjust_tuple ulower) store"

subsection \<open>\<^verbatim>\<open>sort_addresstuple\<close>\<close>

text \<open>
  The loop over \<^verbatim>\<open>dimension_order\<close> with its accumulator \<^verbatim>\<open>sorted_addresstupple\<close>.
  \<^verbatim>\<open>address_element[0]\<close> raises \<^verbatim>\<open>IndexError\<close> when no item starts with
  \<^verbatim>\<open>'[' + dimension + '].'\<close>.
\<close>

fun sort_addresstuple_loop ::
  "string list \<Rightarrow> string list \<Rightarrow> string list \<Rightarrow> error + string list" where
  "sort_addresstuple_loop [] unsorted_addresstuple sorted_addresstupple =
     Inr sorted_addresstupple"
| "sort_addresstuple_loop (dimension # rest) unsorted_addresstuple sorted_addresstupple =
     (let address_element =
            filter (\<lambda>item. startswith item (''['' @ dimension @ ''].'')) unsorted_addresstuple
      in case list_index address_element 0 of
           Inl e \<Rightarrow> Inl e
         | Inr first \<Rightarrow>
             sort_addresstuple_loop rest unsorted_addresstuple (sorted_addresstupple @ [first]))"

definition sort_addresstuple :: "string list \<Rightarrow> string list \<Rightarrow> error + string list" where
  "sort_addresstuple dimension_order unsorted_addresstuple =
     sort_addresstuple_loop dimension_order unsorted_addresstuple []"

subsection \<open>The raw cellset\<close>

text \<open>
  The decoded JSON of a cellset, with the fields the code reads. The sequences the code
  indexes (\<^verbatim>\<open>Axes\<close>, \<^verbatim>\<open>Tuples\<close>, \<^verbatim>\<open>Cells\<close>) are lists read with
  \<^const>\<open>list_index\<close>; \<^verbatim>\<open>Cardinality\<close> is the integer the response states, whatever the
  length of \<^verbatim>\<open>Tuples\<close>. A cell is a JSON object: an association list from property
  names to values, read with \<^const>\<open>od_getitem\<close>.
\<close>

record member =
  UniqueName :: string

record axis_tuple =
  Members :: "member list"

record axis =
  Cardinality :: int
  Tuples :: "axis_tuple list"

record dimension =
  Name :: string

record cube =
  Dimensions :: "dimension list"

record 'v raw_cellset =
  Cube :: cube
  Axes :: "axis list"
  Cells :: "(string \<times> 'v) list list"

subsection \<open>\<^verbatim>\<open>build_content_from_cellset\<close>\<close>

text \<open>The value of a content entry: the dictionary of the requested cell properties.\<close>

type_synonym 'v content = "(string \<times> 'v) list CaseAndSpaceInsensitiveTuplesDict"

text \<open>
  \<^verbatim>\<open>top is not None and ordinal_cells >= top\<close>; the parameter \<^verbatim>\<open>top\<close> is
  \<open>top_arg\<close> here, \<^verbatim>\<open>None\<close> or an integer.
\<close>

definition top_reached :: "int option \<Rightarrow> nat \<Rightarrow> bool" where
  "top_reached top_arg ordinal_cells =
     (case top_arg of None \<Rightarrow> False | Some t \<Rightarrow> int ordinal_cells \<ge> t)"

text \<open>
  \<^verbatim>\<open>content_as_dict[coordinates_sorted][cell_property] = value\<close>: \<^verbatim>\<open>__getitem__\<close> returns
  the dictionary stored for the coordinates, which is then updated in place; the entry
  keeps its cased key.
\<close>

definition content_set_property ::
  "str_lower \<Rightarrow> 'v content \<Rightarrow> string list \<Rightarrow> string \<Rightarrow> 'v \<Rightarrow> error + 'v content" where
  "content_set_property ulower content_as_dict coordinates_sorted cell_property val =
     (case od_getitem content_as_dict (adjust_tuple ulower coordinates_sorted) of
        Inl e \<Rightarrow> Inl e
      | Inr (casedkey, cell) \<Rightarrow>
          Inr (od_setitem content_as_dict (adjust_tuple ulower coordinates_sorted)
                 (casedkey, od_setitem cell cell_property val)))"

text \<open>The loop \<^verbatim>\<open>for cell_property in cell_properties\<close> (lines 106 to 108).\<close>

fun properties_loop ::
  "str_lower \<Rightarrow> 'v raw_cellset \<Rightarrow> nat \<Rightarrow> string list \<Rightarrow> string list \<Rightarrow> 'v content
     \<Rightarrow> error + 'v content" where
  "properties_loop ulower raw ordinal_cells coordinates_sorted [] content_as_dict =
     Inr content_as_dict"
| "properties_loop ulower raw ordinal_cells coordinates_sorted (cell_property # rest) content_as_dict =
     (case list_index (Cells raw) ordinal_cells of
        Inl e \<Rightarrow> Inl e
      | Inr cell \<Rightarrow>
          (case od_getitem cell cell_property of
             Inl e \<Rightarrow> Inl e
           | Inr val \<Rightarrow>
               (case content_set_property ulower content_as_dict coordinates_sorted cell_property val of
                  Inl e \<Rightarrow> Inl e
                | Inr content' \<Rightarrow>
                    properties_loop ulower raw ordinal_cells coordinates_sorted rest content')))"

text \<open>
  The inner loop \<^verbatim>\<open>for j in range(axe0_as_dict['Cardinality'])\<close> (lines 98 to 112),
  with the number of iterations left as its first counter. It returns the content and
  \<^verbatim>\<open>ordinal_cells\<close>; a \<^verbatim>\<open>break\<close> returns at once.
\<close>

fun columns_loop ::
  "str_lower \<Rightarrow> 'v raw_cellset \<Rightarrow> string list \<Rightarrow> int option \<Rightarrow> string list \<Rightarrow> axis \<Rightarrow> string list
     \<Rightarrow> string list \<Rightarrow> nat \<Rightarrow> 'v content \<Rightarrow> nat \<Rightarrow> nat \<Rightarrow> error + ('v content \<times> nat)" where
  "columns_loop ulower raw cell_properties top_arg cube_dimensions axe0_as_dict elements_on_axe2
       elements_on_axe1 0 content_as_dict ordinal_cells ordinal_axe0 =
     Inr (content_as_dict, ordinal_cells)"
| "columns_loop ulower raw cell_properties top_arg cube_dimensions axe0_as_dict elements_on_axe2
       elements_on_axe1 (Suc n) content_as_dict ordinal_cells ordinal_axe0 =
     (case list_index (Tuples axe0_as_dict) ordinal_axe0 of
        Inl e \<Rightarrow> Inl e
      | Inr tuples_as_dict \<Rightarrow>
          (let elements_on_axe0 = map UniqueName (Members tuples_as_dict);
               coordinates = elements_on_axe0 @ elements_on_axe2 @ elements_on_axe1
           in case sort_addresstuple cube_dimensions coordinates of
                Inl e \<Rightarrow> Inl e
              | Inr coordinates_sorted \<Rightarrow>
                  (case properties_loop ulower raw ordinal_cells coordinates_sorted cell_properties
                          (TuplesDict_setitem ulower content_as_dict coordinates_sorted []) of
                     Inl e \<Rightarrow> Inl e
                   | Inr content' \<Rightarrow>
                       if top_reached top_arg (ordinal_cells + 1)
                       then Inr (content', ordinal_cells + 1)
                       else columns_loop ulower raw cell_properties top_arg cube_dimensions axe0_as_dict
                              elements_on_axe2 elements_on_axe1 n content'
                              (ordinal_cells + 1) (ordinal_axe0 + 1))))"

text \<open>
  The outer loop \<^verbatim>\<open>for i in range(axe1_as_dict['Cardinality'])\<close> (lines 93 to 115).
\<close>

fun rows_loop ::
  "str_lower \<Rightarrow> 'v raw_cellset \<Rightarrow> string list \<Rightarrow> int option \<Rightarrow> string list \<Rightarrow> axis \<Rightarrow> axis
     \<Rightarrow> string list \<Rightarrow> nat \<Rightarrow> 'v content \<Rightarrow> nat \<Rightarrow> nat \<Rightarrow> error + 'v content" where
  "rows_loop ulower raw cell_properties top_arg cube_dimensions axe0_as_dict axe1_as_dict
       elements_on_axe2 0 content_as_dict ordinal_cells ordinal_axe1 =
     Inr content_as_dict"
| "rows_loop ulower raw cell_properties top_arg cube_dimensions axe0_as_dict axe1_as_dict
       elements_on_axe2 (Suc m) content_as_dict ordinal_cells ordinal_axe1 =
     (case list_index (Tuples axe1_as_dict) ordinal_axe1 of
        Inl e \<Rightarrow> Inl e
      | Inr tuples_as_dict \<Rightarrow>
          (let elements_on_axe1 = map UniqueName (Members tuples_as_dict)
           in case columns_loop ulower raw cell_properties top_arg cube_dimensions axe0_as_dict
                     elements_on_axe2 elements_on_axe1 (nat (Cardinality axe0_as_dict))
                     content_as_dict ordinal_cells 0 of
                Inl e \<Rightarrow> Inl e
              | Inr (content', ordinal_cells') \<Rightarrow>
                  if top_reached top_arg ordinal_cells' then Inr content'
                  else rows_loop ulower raw cell_properties top_arg cube_dimensions axe0_as_dict
                         axe1_as_dict elements_on_axe2 m content' ordinal_cells'
                         (ordinal_axe1 + 1)))"

text \<open>
  The title axis (lines 85 to 90): the unique names of the members of its first tuple,
  or the empty list when there is no third axis.
\<close>

definition title_elements :: "'v raw_cellset \<Rightarrow> error + string list" where
  "title_elements raw =
     (if length (Axes raw) > 2
      then (case list_index (Axes raw) 2 of
              Inl e \<Rightarrow> Inl e
            | Inr axe2_as_dict \<Rightarrow>
                (case list_index (Tuples axe2_as_dict) 0 of
                   Inl e \<Rightarrow> Inl e
                 | Inr tuples_as_dict \<Rightarrow> Inr (map UniqueName (Members tuples_as_dict))))
      else Inr [])"

definition build_content_from_cellset ::
  "str_lower \<Rightarrow> 'v raw_cellset \<Rightarrow> string list \<Rightarrow> int option \<Rightarrow> error + 'v content" where
  "build_content_from_cellset ulower raw_cellset_as_dict cell_properties top_arg =
     (let content_as_dict = TuplesDict_init ulower [];
          cube_dimensions = map Name (Dimensions (Cube raw_cellset_as_dict))
      in case list_index (Axes raw_cellset_as_dict) 0 of
           Inl e \<Rightarrow> Inl e
         | Inr axe0_as_dict \<Rightarrow>
             (case list_index (Axes raw_cellset_as_dict) 1 of
                Inl e \<Rightarrow> Inl e
              | Inr axe1_as_dict \<Rightarrow>
                  (case title_elements raw_cellset_as_dict of
                     Inl e \<Rightarrow> Inl e
                   | Inr elements_on_axe2 \<Rightarrow>
                       rows_loop ulower raw_cellset_as_dict cell_properties top_arg cube_dimensions
                         axe0_as_dict axe1_as_dict elements_on_axe2
                         (nat (Cardinality axe1_as_dict)) content_as_dict 0 0)))"

subsection \<open>A synthetic cellset\<close>

text \<open>
  Two dimensions, \<^verbatim>\<open>Year\<close> on the rows (three tuples) and \<^verbatim>\<open>Measure\<close> on the columns
  (two tuples), no title axis, and six cells in row-major order whose \<^verbatim>\<open>Value\<close> is
  their index.
\<close>

definition axis_of :: "string list \<Rightarrow> axis" where
  "axis_of names =
     \<lparr>Cardinality = int (length names),
      Tuples = map (\<lambda>n. \<lparr>Members = [\<lparr>UniqueName = n\<rparr>]\<rparr>) names\<rparr>"

definition example_cellset :: "int raw_cellset" where
  "example_cellset =
     \<lparr>Cube = \<lparr>Dimensions = [\<lparr>Name = ''Year''\<rparr>, \<lparr>Name = ''Measure''\<rparr>]\<rparr>,
      Axes = [axis_of [''[Measure].[Sales]'', ''[Measure].[Cost]''],
              axis_of [''[Year].[2015]'', ''[Year].[2016]'', ''[Year].[2017]'']],
      Cells = map (\<lambda>i. [(''Ordinal'', i), (''Value'', i)]) [0, 1, 2, 3, 4, 5]\<rparr>"

text \<open>\<^verbatim>\<open>content[coordinates]['Value']\<close> on the result of the flattener.\<close>

definition content_value :: "str_lower \<Rightarrow> 'v content \<Rightarrow> string list \<Rightarrow> error + 'v" where
  "content_value ulower content_as_dict coordinates =
     (case TuplesDict_getitem ulower content_as_dict coordinates of
        Inl e \<Rightarrow> Inl e
      | Inr cell \<Rightarrow> od_getitem cell ''Value'')"

text \<open>
  The same cellset with a second row label that carries the prefix \<^verbatim>\<open>[Yr].\<close>: the
  coordinates of the second row have no element of the dimension \<^verbatim>\<open>Year\<close>.
\<close>

definition mismatched_cellset :: "int raw_cellset" where
  "mismatched_cellset =
     example_cellset
       \<lparr>Axes := [axis_of [''[Measure].[Sales]'', ''[Measure].[Cost]''],
                 axis_of [''[Year].[2015]'', ''[Yr].[2016]'', ''[Year].[2017]'']]\<rparr>"

section \<open>Properties of the ordered dictionary\<close>


lemma od_getitem_setitem:
  "od_getitem (od_setitem d k v) k' = (if k' = k then Inr v else od_getitem d k')"
  by (induction d) auto

lemma od_getitem_absent: "k \<notin> set (map fst d) \<Longrightarrow> od_getitem d k = Inl KeyError"
  by (induction d) auto

lemma od_getitem_present: "k \<in> set (map fst d) \<Longrightarrow> \<exists>v. od_getitem d k = Inr v"
  by (induction d) force+

lemma od_getitem_Inr: "od_getitem d k = Inr v \<Longrightarrow> (k, v) \<in> set d"
  by (induction d) (auto split: if_splits)

lemma od_setitem_new: "k \<notin> set (map fst d) \<Longrightarrow> od_setitem d k v = d @ [(k, v)]"
  by (induction d) auto

lemma od_setitem_keys: "k \<in> set (map fst d) \<Longrightarrow> map fst (od_setitem d k v) = map fst d"
  by (induction d) force+

lemma od_setitem_inplace:
  "k \<in> set (map fst d) \<Longrightarrow>
     \<exists>i<length d. fst (d ! i) = k \<and> od_setitem d k v = d[i := (k, v)]"
proof (induction d)
  case Nil
  then show ?case by simp
next
  case (Cons p d)
  show ?case
  proof (cases "fst p = k")
    case True
    then have "od_setitem (p # d) k v = (p # d)[0 := (k, v)]" by (cases p) simp
    with True show ?thesis by (intro exI[of _ 0]) simp
  next
    case False
    with Cons.prems have "k \<in> set (map fst d)" by auto
    from Cons.IH[OF this] obtain i where
      i: "i < length d" "fst (d ! i) = k" "od_setitem d k v = d[i := (k, v)]" by blast
    from False i show ?thesis by (intro exI[of _ "Suc i"]) (cases p, simp)
  qed
qed


lemma od_delitem_keys: "od_delitem d k = Inr d' \<Longrightarrow> map fst d' = remove1 k (map fst d)"
  by (induction d arbitrary: d') (auto split: if_splits sum.splits)

lemma od_delitem_subset: "od_delitem d k = Inr d' \<Longrightarrow> set d' \<subseteq> set d"
  by (induction d arbitrary: d') (fastforce split: if_splits sum.splits)+


lemma od_invariant_empty: "od_invariant adj []"
  by (simp add: od_invariant_def)

lemma od_setitem_set:
  "set (od_setitem d k v) \<subseteq> insert (k, v) (set d)"
  by (induction d) (auto split: if_splits)

lemma od_setitem_key_list:
  "map fst (od_setitem d k v) = (if k \<in> set (map fst d) then map fst d else map fst d @ [k])"
  by (simp add: od_setitem_keys od_setitem_new)

lemma od_invariant_setitem:
  assumes "od_invariant adj store"
  shows "od_invariant adj (od_setitem store (adj key) (key, val))"
proof -
  have "distinct (map fst (od_setitem store (adj key) (key, val)))"
    using assms by (simp add: od_invariant_def od_setitem_key_list)
  moreover have "list_all (\<lambda>(ak, ck, v). ak = adj ck) (od_setitem store (adj key) (key, val))"
    using assms od_setitem_set[of store "adj key" "(key, val)"]
    by (auto simp: od_invariant_def list_all_iff)
  ultimately show ?thesis by (simp add: od_invariant_def)
qed

lemma od_invariant_delitem:
  assumes "od_invariant adj store" and "od_delitem store k = Inr store'"
  shows "od_invariant adj store'"
  using assms od_delitem_subset[OF assms(2)] od_delitem_keys[OF assms(2)]
  by (auto simp: od_invariant_def list_all_iff)

lemma od_replay:
  "distinct (map fst (s0 @ store)) \<Longrightarrow>
   list_all (\<lambda>(adjusted_key, casedkey, mappedvalue). adjusted_key = adj casedkey) store \<Longrightarrow>
   foldl (\<lambda>s (key, val). od_setitem s (adj key) (key, val)) s0 (map snd store) = s0 @ store"
proof (induction store arbitrary: s0)
  case Nil
  then show ?case by simp
next
  case (Cons p store)
  obtain ak ck v where p: "p = (ak, ck, v)" by (cases p) auto
  from Cons.prems(2) p have ak: "ak = adj ck" by simp
  from Cons.prems(1) p have new: "ak \<notin> set (map fst s0)" by auto
  have step: "od_setitem s0 (adj ck) (ck, v) = s0 @ [p]"
    using new ak p by (simp add: od_setitem_new)
  have "distinct (map fst ((s0 @ [p]) @ store))" using Cons.prems(1) by simp
  moreover have "list_all (\<lambda>(ak, ck, v). ak = adj ck) store" using Cons.prems(2) by simp
  ultimately have "foldl (\<lambda>s (key, val). od_setitem s (adj key) (key, val)) (s0 @ [p]) (map snd store)
      = (s0 @ [p]) @ store"
    by (rule Cons.IH)
  then show ?case using step p by simp
qed



lemma Dict_copy_same: "Dict_invariant ulower store \<Longrightarrow> Dict_copy ulower store = store"
  using od_replay[of "[]" store "adjust ulower"]
  by (simp add: Dict_invariant_def od_invariant_def Dict_copy_def Dict_init_def Dict_setitem_def)

lemma TuplesDict_copy_same: "TuplesDict_invariant ulower store \<Longrightarrow> TuplesDict_copy ulower store = store"
  using od_replay[of "[]" store "adjust_tuple ulower"]
  by (simp add: TuplesDict_invariant_def od_invariant_def TuplesDict_copy_def
      TuplesDict_init_def TuplesDict_setitem_def)

lemma od_invariant_foldl:
  "od_invariant adj s0 \<Longrightarrow>
   od_invariant adj (foldl (\<lambda>s (key, val). od_setitem s (adj key) (key, val)) s0 data)"
  by (induction data arbitrary: s0) (auto simp: od_invariant_setitem)

lemma Dict_invariant_init: "Dict_invariant ulower (Dict_init ulower data)"
  using od_invariant_foldl[OF od_invariant_empty, of "adjust ulower" data]
  by (simp add: Dict_invariant_def Dict_init_def Dict_setitem_def)

lemma Dict_invariant_setitem: "Dict_invariant ulower store \<Longrightarrow> Dict_invariant ulower (Dict_setitem ulower store key val)"
  by (simp add: Dict_invariant_def Dict_setitem_def od_invariant_setitem)

lemma Dict_invariant_delitem:
  "Dict_invariant ulower store \<Longrightarrow> Dict_delitem ulower store key = Inr store' \<Longrightarrow> Dict_invariant ulower store'"
  unfolding Dict_invariant_def Dict_delitem_def by (rule od_invariant_delitem)

lemma TuplesDict_invariant_init: "TuplesDict_invariant ulower (TuplesDict_init ulower data)"
  using od_invariant_foldl[OF od_invariant_empty, of "adjust_tuple ulower" data]
  by (simp add: TuplesDict_invariant_def TuplesDict_init_def TuplesDict_setitem_def)

lemma TuplesDict_invariant_setitem:
  "TuplesDict_invariant ulower store \<Longrightarrow> TuplesDict_invariant ulower (TuplesDict_setitem ulower store key val)"
  by (simp add: TuplesDict_invariant_def TuplesDict_setitem_def od_invariant_setitem)

lemma TuplesDict_invariant_delitem:
  "TuplesDict_invariant ulower store \<Longrightarrow> TuplesDict_delitem ulower store key = Inr store' \<Longrightarrow>
     TuplesDict_invariant ulower store'"
  unfolding TuplesDict_invariant_def TuplesDict_delitem_def by (rule od_invariant_delitem)


lemma remdups_append_member: "a \<in> set zs \<Longrightarrow> remdups (ys @ a # zs) = remdups (ys @ zs)"
  by (induction ys) auto

lemma od_replay_keys:
  "map fst (foldl (\<lambda>s (key, val). od_setitem s (adj key) (key, val)) s0 data)
     = rev (remdups (rev (map fst s0 @ map (\<lambda>(key, val). adj key) data)))" if "distinct (map fst s0)"
  using that
proof (induction data arbitrary: s0)
  case Nil
  then show ?case by (simp add: distinct_remdups_id)
next
  case (Cons p data)
  obtain k v where p: "p = (k, v)" by (cases p)
  let ?s1 = "od_setitem s0 (adj k) (k, v)"
  have d1: "distinct (map fst ?s1)"
    using Cons.prems by (simp add: od_setitem_key_list)
  have "rev (remdups (rev (map fst ?s1 @ map (\<lambda>(key, val). adj key) data)))
      = rev (remdups (rev (map fst s0 @ adj k # map (\<lambda>(key, val). adj key) data)))"
  proof (cases "adj k \<in> set (map fst s0)")
    case True
    then have "adj k \<in> set (rev (map fst s0))" by simp
    from remdups_append_member[OF this, of "rev (map (\<lambda>(key, val). adj key) data)"] True
    show ?thesis by (simp add: od_setitem_key_list)
  next
    case False
    then show ?thesis by (simp add: od_setitem_key_list)
  qed
  with Cons.IH[OF d1] p show ?case by simp
qed

section \<open>The insensitive maps\<close>

text \<open>
  The theorems of this section hold for every lower-casing \<open>ulower\<close> of the strings
  outside ASCII, so for the one of Python; their witnesses use labels with an O-umlaut.
\<close>

lemma Dict_adjusted_keys_fst: "Dict_adjusted_keys store = map fst store"
  by (simp add: Dict_adjusted_keys_def case_prod_unfold)

lemma TuplesDict_adjusted_keys_fst: "TuplesDict_adjusted_keys store = map fst store"
  by (simp add: TuplesDict_adjusted_keys_def case_prod_unfold)

text \<open>
  Claim C3. After \<^verbatim>\<open>m[L] = v\<close>, reading \<^verbatim>\<open>m[L']\<close> for any \<open>L'\<close> with the same
  adjusted form (lower-cased, spaces removed) as \<open>L\<close> returns \<open>v\<close>, and reading a key
  whose adjusted form is not a key of the store raises \<^verbatim>\<open>KeyError\<close>
  (\<^verbatim>\<open>KeyNotFound\<close>); for \<^verbatim>\<open>CaseAndSpaceInsensitiveDict\<close> and, component by component,
  for \<^verbatim>\<open>CaseAndSpaceInsensitiveTuplesDict\<close>.
\<close>

theorem insensitive_get_after_set:
  "(adjust ulower L' = adjust ulower L \<longrightarrow> Dict_getitem ulower (Dict_setitem ulower store L v) L' = Inr v) \<and>
   (adjust ulower key \<notin> set (Dict_adjusted_keys store) \<longrightarrow> Dict_getitem ulower store key = Inl KeyError) \<and>
   (adjust_tuple ulower T' = adjust_tuple ulower T \<longrightarrow>
      TuplesDict_getitem ulower (TuplesDict_setitem ulower tstore T w) T' = Inr w) \<and>
   (adjust_tuple ulower tkey \<notin> set (TuplesDict_adjusted_keys tstore) \<longrightarrow>
      TuplesDict_getitem ulower tstore tkey = Inl KeyError)"
proof -
  note keys = Dict_adjusted_keys_fst
  note tkeys = TuplesDict_adjusted_keys_fst
  show ?thesis
    by (simp add: Dict_getitem_def Dict_setitem_def TuplesDict_getitem_def
        TuplesDict_setitem_def od_getitem_setitem od_getitem_absent keys tkeys)
qed

theorem insensitive_get_after_set_witness:
  "adjust latin1_lower oesterreich = adjust latin1_lower Oesterreich \<and>
   Dict_getitem latin1_lower (Dict_setitem latin1_lower (Dict_init latin1_lower [(''Salaries'', 7)]) Oesterreich (100::int))
      oesterreich = Inr 100 \<and>
   adjust latin1_lower ''Bonus'' \<notin> set (Dict_adjusted_keys (Dict_init latin1_lower [(''Salaries'', 7::int)])) \<and>
   Dict_getitem latin1_lower (Dict_init latin1_lower [(''Salaries'', 7::int)]) ''Bonus'' = Inl KeyError \<and>
   adjust_tuple latin1_lower [''[BusinessUnit].[UK]'', ''[Scenario].[worstcase]'']
     = adjust_tuple latin1_lower [''[Business Unit].[UK]'', ''[Scenario].[Worst Case]''] \<and>
   TuplesDict_getitem latin1_lower
     (TuplesDict_setitem latin1_lower (TuplesDict_init latin1_lower [([''[Business Unit].[UK]''], 1)])
        [''[Business Unit].[UK]'', ''[Scenario].[Worst Case]''] (1000::int))
     [''[BusinessUnit].[UK]'', ''[Scenario].[worstcase]''] = Inr 1000 \<and>
   adjust_tuple latin1_lower [''[Business Unit].[US]'']
     \<notin> set (TuplesDict_adjusted_keys (TuplesDict_init latin1_lower [([''[Business Unit].[UK]''], 1::int)])) \<and>
   TuplesDict_getitem latin1_lower (TuplesDict_init latin1_lower [([''[Business Unit].[UK]''], 1::int)])
     [''[Business Unit].[US]''] = Inl KeyError"
proof -
  have h1: "adjust latin1_lower oesterreich = adjust latin1_lower Oesterreich" by code_simp
  have h2: "adjust latin1_lower ''Bonus'' \<notin> set (Dict_adjusted_keys (Dict_init latin1_lower [(''Salaries'', 7::int)]))"
    by code_simp
  have h3: "adjust_tuple latin1_lower [''[BusinessUnit].[UK]'', ''[Scenario].[worstcase]'']
     = adjust_tuple latin1_lower [''[Business Unit].[UK]'', ''[Scenario].[Worst Case]'']" by code_simp
  have h4: "adjust_tuple latin1_lower [''[Business Unit].[US]'']
     \<notin> set (TuplesDict_adjusted_keys (TuplesDict_init latin1_lower [([''[Business Unit].[UK]''], 1::int)]))"
    by code_simp
  note t = insensitive_get_after_set
    [where L' = "oesterreich" and L = "Oesterreich"
      and store = "Dict_init latin1_lower [(''Salaries'', 7)]" and v = "100::int" and key = "''Bonus''"
      and T' = "[''[BusinessUnit].[UK]'', ''[Scenario].[worstcase]'']"
      and T = "[''[Business Unit].[UK]'', ''[Scenario].[Worst Case]'']"
      and tstore = "TuplesDict_init latin1_lower [([''[Business Unit].[UK]''], 1::int)]" and w = "1000::int"
      and tkey = "[''[Business Unit].[US]'']"]
  from t h1 h2 h3 h4 show ?thesis by blast
qed


text \<open>
  Claim C4. On an empty \<^verbatim>\<open>CaseAndSpaceInsensitiveDict\<close>, after
  \<^verbatim>\<open>m["Travel Expenses"] = 1\<close> and \<^verbatim>\<open>m["travelexpenses"] = 2\<close> the map has one entry,
  \<^verbatim>\<open>m["Travel Expenses"]\<close> is 2, and iteration yields the key \<^verbatim>\<open>"travelexpenses"\<close>.
\<close>

theorem display_key_last_write:
  "Dict_len (Dict_setitem ulower (Dict_setitem ulower (Dict_init ulower []) ''Travel Expenses'' (1::int))
      ''travelexpenses'' 2) = 1 \<and>
   Dict_getitem ulower (Dict_setitem ulower (Dict_setitem ulower (Dict_init ulower []) ''Travel Expenses'' (1::int))
      ''travelexpenses'' 2) ''Travel Expenses'' = Inr 2 \<and>
   Dict_iter (Dict_setitem ulower (Dict_setitem ulower (Dict_init ulower []) ''Travel Expenses'' (1::int))
      ''travelexpenses'' 2) = [''travelexpenses'']"
  by code_simp

text \<open>
  Claim C5. Iteration follows the first insertion of the adjusted keys. Writing a key
  whose adjusted form is already in the store replaces the cased key and the value of
  that entry where it stands: the adjusted keys and every other entry are as before.
  Writing a key with a new adjusted form appends the entry. A map built from a sequence
  of writes therefore holds the adjusted keys in the order of their first occurrences.
  For both classes.
\<close>

theorem setitem_keeps_insertion_order:
  "(adjust ulower key \<in> set (Dict_adjusted_keys store) \<longrightarrow>
      Dict_adjusted_keys (Dict_setitem ulower store key val) = Dict_adjusted_keys store \<and>
      (\<exists>i<length store. Dict_adjusted_keys store ! i = adjust ulower key \<and>
         Dict_setitem ulower store key val = store[i := (adjust ulower key, key, val)] \<and>
         Dict_iter (Dict_setitem ulower store key val) = (Dict_iter store)[i := key])) \<and>
   (adjust ulower key \<notin> set (Dict_adjusted_keys store) \<longrightarrow>
      Dict_setitem ulower store key val = store @ [(adjust ulower key, key, val)] \<and>
      Dict_iter (Dict_setitem ulower store key val) = Dict_iter store @ [key]) \<and>
   Dict_adjusted_keys (Dict_init ulower data)
     = rev (remdups (rev (map (\<lambda>(key, val). adjust ulower key) data))) \<and>
   (adjust_tuple ulower tkey \<in> set (TuplesDict_adjusted_keys tstore) \<longrightarrow>
      TuplesDict_adjusted_keys (TuplesDict_setitem ulower tstore tkey tval)
        = TuplesDict_adjusted_keys tstore \<and>
      (\<exists>i<length tstore. TuplesDict_adjusted_keys tstore ! i = adjust_tuple ulower tkey \<and>
         TuplesDict_setitem ulower tstore tkey tval = tstore[i := (adjust_tuple ulower tkey, tkey, tval)] \<and>
         TuplesDict_iter (TuplesDict_setitem ulower tstore tkey tval)
           = (TuplesDict_iter tstore)[i := tkey])) \<and>
   (adjust_tuple ulower tkey \<notin> set (TuplesDict_adjusted_keys tstore) \<longrightarrow>
      TuplesDict_setitem ulower tstore tkey tval = tstore @ [(adjust_tuple ulower tkey, tkey, tval)] \<and>
      TuplesDict_iter (TuplesDict_setitem ulower tstore tkey tval) = TuplesDict_iter tstore @ [tkey]) \<and>
   TuplesDict_adjusted_keys (TuplesDict_init ulower tdata)
     = rev (remdups (rev (map (\<lambda>(key, val). adjust_tuple ulower key) tdata)))"
proof -
  note keys = Dict_adjusted_keys_fst
  note tkeys = TuplesDict_adjusted_keys_fst
  have a: "Dict_adjusted_keys (Dict_setitem ulower store key val) = Dict_adjusted_keys store \<and>
      (\<exists>i<length store. Dict_adjusted_keys store ! i = adjust ulower key \<and>
         Dict_setitem ulower store key val = store[i := (adjust ulower key, key, val)] \<and>
         Dict_iter (Dict_setitem ulower store key val) = (Dict_iter store)[i := key])"
    if "adjust ulower key \<in> set (Dict_adjusted_keys store)"
  proof -
    from that have mem: "adjust ulower key \<in> set (map fst store)" by (simp add: keys)
    from od_setitem_inplace[OF mem, of "(key, val)"] obtain i where
      i: "i < length store" "fst (store ! i) = adjust ulower key"
         "od_setitem store (adjust ulower key) (key, val) = store[i := (adjust ulower key, key, val)]"
      by blast
    have k1: "Dict_adjusted_keys (Dict_setitem ulower store key val) = Dict_adjusted_keys store"
      using mem by (simp add: keys Dict_setitem_def od_setitem_keys)
    have k2: "Dict_adjusted_keys store ! i = adjust ulower key"
      using i(1,2) by (simp add: keys)
    have k3: "Dict_setitem ulower store key val = store[i := (adjust ulower key, key, val)]"
      using i(3) by (simp add: Dict_setitem_def)
    have k4: "Dict_iter (Dict_setitem ulower store key val) = (Dict_iter store)[i := key]"
      unfolding k3 by (simp add: Dict_iter_def map_update)
    from i(1) k1 k2 k3 k4 show ?thesis by blast
  qed
  have b: "Dict_setitem ulower store key val = store @ [(adjust ulower key, key, val)] \<and>
      Dict_iter (Dict_setitem ulower store key val) = Dict_iter store @ [key]"
    if "adjust ulower key \<notin> set (Dict_adjusted_keys store)"
    using that by (simp add: keys Dict_setitem_def od_setitem_new Dict_iter_def)
  have c: "Dict_adjusted_keys (Dict_init ulower data)
     = rev (remdups (rev (map (\<lambda>(key, val). adjust ulower key) data)))"
    using od_replay_keys[of "[]" "adjust ulower" data]
    by (simp add: keys Dict_init_def Dict_setitem_def)
  have ta: "TuplesDict_adjusted_keys (TuplesDict_setitem ulower tstore tkey tval)
        = TuplesDict_adjusted_keys tstore \<and>
      (\<exists>i<length tstore. TuplesDict_adjusted_keys tstore ! i = adjust_tuple ulower tkey \<and>
         TuplesDict_setitem ulower tstore tkey tval = tstore[i := (adjust_tuple ulower tkey, tkey, tval)] \<and>
         TuplesDict_iter (TuplesDict_setitem ulower tstore tkey tval)
           = (TuplesDict_iter tstore)[i := tkey])"
    if "adjust_tuple ulower tkey \<in> set (TuplesDict_adjusted_keys tstore)"
  proof -
    from that have mem: "adjust_tuple ulower tkey \<in> set (map fst tstore)" by (simp add: tkeys)
    from od_setitem_inplace[OF mem, of "(tkey, tval)"] obtain i where
      i: "i < length tstore" "fst (tstore ! i) = adjust_tuple ulower tkey"
         "od_setitem tstore (adjust_tuple ulower tkey) (tkey, tval)
            = tstore[i := (adjust_tuple ulower tkey, tkey, tval)]"
      by blast
    have k1: "TuplesDict_adjusted_keys (TuplesDict_setitem ulower tstore tkey tval)
        = TuplesDict_adjusted_keys tstore"
      using mem by (simp add: tkeys TuplesDict_setitem_def od_setitem_keys)
    have k2: "TuplesDict_adjusted_keys tstore ! i = adjust_tuple ulower tkey"
      using i(1,2) by (simp add: tkeys)
    have k3: "TuplesDict_setitem ulower tstore tkey tval = tstore[i := (adjust_tuple ulower tkey, tkey, tval)]"
      using i(3) by (simp add: TuplesDict_setitem_def)
    have k4: "TuplesDict_iter (TuplesDict_setitem ulower tstore tkey tval)
        = (TuplesDict_iter tstore)[i := tkey]"
      unfolding k3 by (simp add: TuplesDict_iter_def map_update)
    from i(1) k1 k2 k3 k4 show ?thesis by blast
  qed
  have tb: "TuplesDict_setitem ulower tstore tkey tval = tstore @ [(adjust_tuple ulower tkey, tkey, tval)] \<and>
      TuplesDict_iter (TuplesDict_setitem ulower tstore tkey tval) = TuplesDict_iter tstore @ [tkey]"
    if "adjust_tuple ulower tkey \<notin> set (TuplesDict_adjusted_keys tstore)"
    using that by (simp add: tkeys TuplesDict_setitem_def od_setitem_new TuplesDict_iter_def)
  have tc: "TuplesDict_adjusted_keys (TuplesDict_init ulower tdata)
     = rev (remdups (rev (map (\<lambda>(key, val). adjust_tuple ulower key) tdata)))"
    using od_replay_keys[of "[]" "adjust_tuple ulower" tdata]
    by (simp add: tkeys TuplesDict_init_def TuplesDict_setitem_def)
  from a b c ta tb tc show ?thesis by blast
qed

theorem setitem_keeps_insertion_order_witness:
  "adjust latin1_lower Oesterreich \<in> set (Dict_adjusted_keys (Dict_init latin1_lower [(oesterreich, 1::int), (''c'', 2)])) \<and>
   Dict_setitem latin1_lower (Dict_init latin1_lower [(oesterreich, 1::int), (''c'', 2)]) Oesterreich 3
     = [(oesterreich, Oesterreich, 3), (''c'', ''c'', 2)] \<and>
   Dict_iter (Dict_setitem latin1_lower (Dict_init latin1_lower [(oesterreich, 1::int), (''c'', 2)]) Oesterreich 3)
     = [Oesterreich, ''c''] \<and>
   adjust_tuple latin1_lower [''X y''] \<notin> set (TuplesDict_adjusted_keys (TuplesDict_init latin1_lower [([''Ab''], 1::int)])) \<and>
   TuplesDict_iter (TuplesDict_setitem latin1_lower (TuplesDict_init latin1_lower [([''Ab''], 1::int)]) [''X y''] 3)
     = [[''Ab''], [''X y'']]"
proof -
  have h1: "adjust latin1_lower Oesterreich \<in> set (Dict_adjusted_keys (Dict_init latin1_lower [(oesterreich, 1::int), (''c'', 2)]))"
    by code_simp
  have h2: "adjust_tuple latin1_lower [''X y'']
      \<notin> set (TuplesDict_adjusted_keys (TuplesDict_init latin1_lower [([''Ab''], 1::int)]))"
    by code_simp
  have e1: "Dict_init latin1_lower [(oesterreich, 1::int), (''c'', 2)] = [(oesterreich, oesterreich, 1), (''c'', ''c'', 2)]"
    by code_simp
  have e2: "adjust latin1_lower Oesterreich = oesterreich" by code_simp
  have e3: "TuplesDict_iter (TuplesDict_init latin1_lower [([''Ab''], 1::int)]) = [[''Ab'']]" by code_simp
  note t = setitem_keeps_insertion_order
    [where key = "Oesterreich" and store = "Dict_init latin1_lower [(oesterreich, 1::int), (''c'', 2)]" and val = 3
      and tkey = "[''X y'']" and tstore = "TuplesDict_init latin1_lower [([''Ab''], 1::int)]" and tval = 3
      and data = "[]" and tdata = "[]"]
  from t h1 obtain i where
    i: "i < length (Dict_init latin1_lower [(oesterreich, 1::int), (''c'', 2)])"
       "Dict_adjusted_keys (Dict_init latin1_lower [(oesterreich, 1::int), (''c'', 2)]) ! i = adjust latin1_lower Oesterreich"
       "Dict_setitem latin1_lower (Dict_init latin1_lower [(oesterreich, 1::int), (''c'', 2)]) Oesterreich 3
          = (Dict_init latin1_lower [(oesterreich, 1::int), (''c'', 2)])[i := (adjust latin1_lower Oesterreich, Oesterreich, 3)]"
       "Dict_iter (Dict_setitem latin1_lower (Dict_init latin1_lower [(oesterreich, 1::int), (''c'', 2)]) Oesterreich 3)
          = (Dict_iter (Dict_init latin1_lower [(oesterreich, 1::int), (''c'', 2)]))[i := Oesterreich]"
    by blast
  from i(1) have "i = 0 \<or> i = 1" by (auto simp: e1)
  have ne: "''c'' \<noteq> oesterreich" by (simp add: oesterreich_def)
  with i(2) \<open>i = 0 \<or> i = 1\<close> have i0: "i = 0" by (auto simp: e1 e2 Dict_adjusted_keys_def)
  from i(3) i0 have s1: "Dict_setitem latin1_lower (Dict_init latin1_lower [(oesterreich, 1::int), (''c'', 2)]) Oesterreich 3
     = [(oesterreich, Oesterreich, 3), (''c'', ''c'', 2)]" by (simp add: e1 e2)
  from i(4) i0 have s2: "Dict_iter (Dict_setitem latin1_lower (Dict_init latin1_lower [(oesterreich, 1::int), (''c'', 2)]) Oesterreich 3)
     = [Oesterreich, ''c'']" by (simp add: e1 Dict_iter_def)
  from t h2 have "TuplesDict_iter (TuplesDict_setitem latin1_lower (TuplesDict_init latin1_lower [([''Ab''], 1::int)]) [''X y''] 3)
     = TuplesDict_iter (TuplesDict_init latin1_lower [([''Ab''], 1::int)]) @ [[''X y'']]" by blast
  then have s3: "TuplesDict_iter (TuplesDict_setitem latin1_lower (TuplesDict_init latin1_lower [([''Ab''], 1::int)]) [''X y''] 3)
     = [[''Ab''], [''X y'']]" by (simp add: e3)
  from h1 h2 s1 s2 s3 show ?thesis by blast
qed

text \<open>
  Claim C8. For every instance \<open>m1\<close> (a reference into the heap to a store that
  satisfies the invariant of its class), \<^verbatim>\<open>m2 = m1.copy()\<close> is a new object with the
  same entries as \<open>m1\<close>: the same cased keys and values in the same order. Writing any
  key of \<open>m2\<close> leaves the object \<open>m1\<close>, and so every lookup on it, as it was. For both
  classes.
\<close>

theorem copy_independent:
  assumes "m1 < length h" and "Dict_invariant ulower (h ! m1)"
    and "t1 < length th" and "TuplesDict_invariant ulower (th ! t1)"
  shows "(case Dict_copy_ref ulower h m1 of (h', m2) \<Rightarrow>
            m2 \<noteq> m1 \<and> h' ! m1 = h ! m1 \<and> h' ! m2 = h ! m1 \<and>
            Dict_iter (h' ! m2) = Dict_iter (h ! m1) \<and>
            Dict_items ulower (h' ! m2) = Dict_items ulower (h ! m1) \<and>
            (\<forall>key val. Dict_setitem_ref ulower h' m2 key val ! m1 = h ! m1) \<and>
            (\<forall>key val key'. Dict_getitem_ref ulower (Dict_setitem_ref ulower h' m2 key val) m1 key'
                              = Dict_getitem_ref ulower h m1 key')) \<and>
         (case TuplesDict_copy_ref ulower th t1 of (th', t2) \<Rightarrow>
            t2 \<noteq> t1 \<and> th' ! t1 = th ! t1 \<and> th' ! t2 = th ! t1 \<and>
            TuplesDict_iter (th' ! t2) = TuplesDict_iter (th ! t1) \<and>
            TuplesDict_items ulower (th' ! t2) = TuplesDict_items ulower (th ! t1) \<and>
            (\<forall>key val. TuplesDict_setitem_ref ulower th' t2 key val ! t1 = th ! t1) \<and>
            (\<forall>key val key'.
               TuplesDict_getitem_ref ulower (TuplesDict_setitem_ref ulower th' t2 key val) t1 key'
                 = TuplesDict_getitem_ref ulower th t1 key'))"
proof -
  have d: "Dict_copy ulower (h ! m1) = h ! m1" using assms(2) by (rule Dict_copy_same)
  have t: "TuplesDict_copy ulower (th ! t1) = th ! t1" using assms(4) by (rule TuplesDict_copy_same)
  show ?thesis
    using assms(1,3)
    by (simp add: Dict_copy_ref_def TuplesDict_copy_ref_def heap_new_def d t
        Dict_setitem_ref_def Dict_getitem_ref_def TuplesDict_setitem_ref_def
        TuplesDict_getitem_ref_def nth_append)
qed

theorem copy_independent_witness:
  "(0::nat) < length [Dict_init latin1_lower [(Oesterreich, 1::int), (''Rent'', 2)]] \<and>
   Dict_invariant latin1_lower ([Dict_init latin1_lower [(Oesterreich, 1::int), (''Rent'', 2)]] ! 0) \<and>
   (0::nat) < length [TuplesDict_init latin1_lower [([''[Business Unit].[UK]''], 5::int)]] \<and>
   TuplesDict_invariant latin1_lower ([TuplesDict_init latin1_lower [([''[Business Unit].[UK]''], 5::int)]] ! 0) \<and>
   (case Dict_copy_ref latin1_lower [Dict_init latin1_lower [(Oesterreich, 1::int), (''Rent'', 2)]] 0 of
      (h', m2) \<Rightarrow>
        Dict_getitem_ref latin1_lower (Dict_setitem_ref latin1_lower h' m2 oesterreich 9) 0 Oesterreich
          = Dict_getitem_ref latin1_lower [Dict_init latin1_lower [(Oesterreich, 1::int), (''Rent'', 2)]] 0
              Oesterreich) \<and>
   (case TuplesDict_copy_ref latin1_lower [TuplesDict_init latin1_lower [([''[Business Unit].[UK]''], 5::int)]] 0 of
      (th', t2) \<Rightarrow>
        TuplesDict_getitem_ref latin1_lower (TuplesDict_setitem_ref latin1_lower th' t2 [''[businessunit].[uk]''] 9) 0
            [''[Business Unit].[UK]'']
          = TuplesDict_getitem_ref latin1_lower [TuplesDict_init latin1_lower [([''[Business Unit].[UK]''], 5::int)]] 0
              [''[Business Unit].[UK]''])"
proof -
  have h1: "(0::nat) < length [Dict_init latin1_lower [(Oesterreich, 1::int), (''Rent'', 2)]]"
    by simp
  have h2: "Dict_invariant latin1_lower ([Dict_init latin1_lower [(Oesterreich, 1::int), (''Rent'', 2)]] ! 0)"
    by (simp add: Dict_invariant_init)
  have h3: "(0::nat) < length [TuplesDict_init latin1_lower [([''[Business Unit].[UK]''], 5::int)]]"
    by simp
  have h4: "TuplesDict_invariant latin1_lower ([TuplesDict_init latin1_lower [([''[Business Unit].[UK]''], 5::int)]] ! 0)"
    by (simp add: TuplesDict_invariant_init)
  from copy_independent[OF h1 h2 h3 h4] h1 h2 h3 h4 show ?thesis
    by (auto split: prod.splits)
qed


section \<open>The address tuple sorter\<close>

lemma list_index_error: "list_index xs i = Inl e \<Longrightarrow> e = IndexError"
  by (simp add: list_index_def split: if_splits)

lemma sort_addresstuple_loop_error:
  "sort_addresstuple_loop dims unsorted acc = Inl e \<Longrightarrow> e = IndexError"
  by (induction dims arbitrary: acc)
    (auto simp: Let_def split: sum.splits dest: list_index_error)

lemma sort_addresstuple_error: "sort_addresstuple dims unsorted = Inl e \<Longrightarrow> e = IndexError"
  unfolding sort_addresstuple_def by (rule sort_addresstuple_loop_error)

lemma sort_addresstuple_loop_missing:
  assumes "d \<in> set dims"
    and "\<forall>item \<in> set unsorted. \<not> startswith item (''['' @ d @ ''].'')"
  shows "sort_addresstuple_loop dims unsorted acc = Inl IndexError"
  using assms(1)
proof (induction dims arbitrary: acc)
  case Nil
  then show ?case by simp
next
  case (Cons dimension rest)
  let ?found = "filter (\<lambda>item. startswith item (''['' @ dimension @ ''].'')) unsorted"
  show ?case
  proof (cases ?found)
    case Nil
    then show ?thesis by (simp add: list_index_def)
  next
    case (Cons first others)
    then have "first \<in> set ?found" by simp
    then have "startswith first (''['' @ dimension @ ''].'')" and "first \<in> set unsorted"
      by simp_all
    with assms(2) have "dimension \<noteq> d" by auto
    with Cons.prems have "d \<in> set rest" by simp
    from Cons.IH[OF this] Cons show ?thesis by (simp add: list_index_def)
  qed
qed

lemma sort_addresstuple_loop_found:
  "\<forall>d \<in> set dims. \<exists>item \<in> set unsorted. startswith item (''['' @ d @ ''].'') \<Longrightarrow>
   sort_addresstuple_loop dims unsorted acc
     = Inr (acc @ map (\<lambda>d. hd (filter (\<lambda>item. startswith item (''['' @ d @ ''].'')) unsorted))
                    dims)"
proof (induction dims arbitrary: acc)
  case Nil
  then show ?case by simp
next
  case (Cons dimension rest)
  let ?found = "filter (\<lambda>item. startswith item (''['' @ dimension @ ''].'')) unsorted"
  from Cons.prems have "?found \<noteq> []" by (auto simp: filter_empty_conv)
  then obtain first others where f: "?found = first # others" by (cases ?found) auto
  from Cons.prems have "\<forall>d \<in> set rest. \<exists>item \<in> set unsorted. startswith item (''['' @ d @ ''].'')"
    by simp
  from Cons.IH[OF this, of "acc @ [first]"] f show ?case by (simp add: list_index_def)
qed

lemma lower_char_bracket: "lower_char c = CHR '']'' \<longleftrightarrow> c = CHR '']''"
proof
  assume a: "lower_char c = CHR '']''"
  show "c = CHR '']''"
  proof (rule ccontr)
    assume n: "c \<noteq> CHR '']''"
    with a have r: "65 \<le> (of_char c :: nat)" "(of_char c :: nat) \<le> 90"
      and "char_of ((of_char c :: nat) + 32) = CHR '']''"
      by (auto simp: lower_char_def split: if_splits)
    then have "(of_char (char_of ((of_char c :: nat) + 32)) :: nat) = of_char CHR '']''"
      by simp
    with r show False by simp
  qed
next
  assume "c = CHR '']''"
  then show "lower_char c = CHR '']''" by (simp add: lower_char_def)
qed

lemma count_lower_char: "count_list (map lower_char s) CHR '']'' = count_list s CHR '']''"
  by (induction s) (simp_all add: lower_char_bracket)

lemma high_byte_bracket:
  "128 \<le> (of_char c :: nat) \<Longrightarrow> (of_char c :: nat) \<le> 158 \<Longrightarrow>
     char_of ((of_char c :: nat) + 32) \<noteq> CHR '']'' \<and> c \<noteq> CHR '']''"
proof (intro conjI notI)
  assume r: "128 \<le> (of_char c :: nat)" "(of_char c :: nat) \<le> 158"
  assume "char_of ((of_char c :: nat) + 32) = CHR '']''"
  then have "(of_char (char_of ((of_char c :: nat) + 32)) :: nat) = of_char CHR '']''"
    by simp
  with r show False by simp
next
  assume "128 \<le> (of_char c :: nat)" and "c = CHR '']''"
  then show False by simp
qed

lemma lead_byte_bracket: "(of_char c :: nat) = 195 \<Longrightarrow> c \<noteq> CHR '']''"
  by auto

lemma latin1_lower_bracket: "count_list (latin1_lower s) CHR '']'' = count_list s CHR '']''"
proof (induction s rule: latin1_lower.induct)
  case 1
  then show ?case by simp
next
  case (2 c)
  then show ?case by (simp add: lower_char_bracket)
next
  case (3 c c' s)
  show ?case
  proof (cases "(of_char c :: nat) = 195 \<and> 128 \<le> (of_char c' :: nat)
      \<and> (of_char c' :: nat) \<le> 158 \<and> (of_char c' :: nat) \<noteq> 151")
    case True
    with 3(1) have ih: "count_list (latin1_lower s) CHR '']'' = count_list s CHR '']''" by simp
    from True have "c \<noteq> CHR '']''" by (intro lead_byte_bracket) simp
    moreover from True have "char_of ((of_char c' :: nat) + 32) \<noteq> CHR '']'' \<and> c' \<noteq> CHR '']''"
      by (intro high_byte_bracket) simp_all
    ultimately show ?thesis using True ih by simp
  next
    case False
    with 3(2) have ih: "count_list (latin1_lower (c' # s)) CHR '']'' = count_list (c' # s) CHR '']''"
      by simp
    have "latin1_lower (c # c' # s) = lower_char c # latin1_lower (c' # s)"
      by (simp only: latin1_lower.simps(3) False if_False)
    then show ?thesis using ih by (simp add: lower_char_bracket)
  qed
qed

lemma count_replace_spaces:
  "count_list (replace_spaces s) CHR '']'' = count_list s CHR '']''"
  by (induction s) (simp_all add: replace_spaces_def)

lemma adjust_bracket:
  assumes "\<forall>s. count_list (ulower s) CHR '']'' = count_list s CHR '']''"
  shows "count_list (adjust ulower s) CHR '']'' = count_list s CHR '']''"
  using assms by (simp add: adjust_def lower_def count_replace_spaces count_lower_char)

lemma startswith_append: "startswith s p \<longleftrightarrow> (\<exists>r. s = p @ r)"
  unfolding startswith_def
  by (metis append_eq_conv_conj append_take_drop_id)

lemma variant_prefix_no_match:
  assumes "\<forall>s. count_list (ulower s) CHR '']'' = count_list s CHR '']''"
    and "d' \<noteq> d" and "adjust ulower d' = adjust ulower d"
  shows "\<not> startswith (''['' @ d' @ ''].'' @ element) (''['' @ d @ ''].'')"
proof
  assume "startswith (''['' @ d' @ ''].'' @ element) (''['' @ d @ ''].'')"
  then obtain r where "''['' @ d' @ ''].'' @ element = (''['' @ d @ ''].'') @ r"
    unfolding startswith_append by blast
  then have eq: "d' @ (''].'' @ element) = d @ (''].'' @ r)" by simp
  from assms(3) have "count_list (adjust ulower d') CHR '']'' = count_list (adjust ulower d) CHR '']''"
    by simp
  then have same: "count_list d' CHR '']'' = count_list d CHR '']''"
    by (simp add: adjust_bracket[OF assms(1)])
  from eq obtain us where
    "(d' = d @ us \<and> us @ (''].'' @ element) = ''].'' @ r) \<or>
     (d' @ us = d \<and> ''].'' @ element = us @ (''].'' @ r))"
    unfolding append_eq_append_conv2 by blast
  then show False
  proof
    assume c: "d' = d @ us \<and> us @ (''].'' @ element) = ''].'' @ r"
    with assms(2) have ne: "us \<noteq> []" by auto
    with c have "hd us = CHR '']''" by (cases us) auto
    with ne have "0 < count_list us CHR '']''" by (cases us) auto
    with c same show False by simp
  next
    assume c: "d' @ us = d \<and> ''].'' @ element = us @ (''].'' @ r)"
    with assms(2) have ne: "us \<noteq> []" by auto
    with c have "hd us = CHR '']''" by (cases us) auto
    with ne have "0 < count_list us CHR '']''" by (cases us) auto
    with c same show False by auto
  qed
qed

text \<open>
  Claim C10. \<^verbatim>\<open>sort_addresstuple\<close> compares the prefix \<^verbatim>\<open>'[' + dimension + '].'\<close>
  character by character. When the only label for a listed dimension \<open>d\<close> is written
  with a name \<open>d'\<close> that differs from \<open>d\<close> in letter case or spaces only (a different
  string with the same adjusted form, the adjustment being that of the insensitive maps
  with the lower-casing of Python), the label is not matched and the call raises the
  \<^verbatim>\<open>IndexError\<close> of a missing dimension, although an insensitive map takes \<open>d\<close> and
  \<open>d'\<close> for the same key. The one property of lower-casing that is used: it neither
  creates nor removes the character \<^verbatim>\<open>]\<close>, which is not a letter.
\<close>

theorem prefix_match_is_sensitive:
  assumes "\<forall>s. count_list (ulower s) CHR '']'' = count_list s CHR '']''"
    and "d \<in> set dimension_order"
    and "d' \<noteq> d" and "adjust ulower d' = adjust ulower d"
    and "label = ''['' @ d' @ ''].'' @ element"
    and "label \<in> set unsorted_addresstuple"
    and "\<forall>item \<in> set unsorted_addresstuple.
           item \<noteq> label \<longrightarrow> \<not> startswith item (''['' @ d @ ''].'')"
  shows "\<not> startswith label (''['' @ d @ ''].'') \<and>
         sort_addresstuple dimension_order unsorted_addresstuple = Inl IndexError \<and>
         (\<forall>store v. Dict_getitem ulower (Dict_setitem ulower store d v) d' = Inr v)"
proof -
  have no: "\<not> startswith label (''['' @ d @ ''].'')"
    unfolding assms(5) using assms(1,3,4) by (rule variant_prefix_no_match)
  have "\<forall>item \<in> set unsorted_addresstuple. \<not> startswith item (''['' @ d @ ''].'')"
  proof
    fix item
    assume "item \<in> set unsorted_addresstuple"
    with assms(7) have "item \<noteq> label \<longrightarrow> \<not> startswith item (''['' @ d @ ''].'')"
      by (rule bspec)
    with no show "\<not> startswith item (''['' @ d @ ''].'')"
      by (cases "item = label") simp_all
  qed
  with assms(2) have fails: "sort_addresstuple dimension_order unsorted_addresstuple = Inl IndexError"
    unfolding sort_addresstuple_def by (rule sort_addresstuple_loop_missing)
  have same: "\<forall>store v. Dict_getitem ulower (Dict_setitem ulower store d v) d' = Inr v"
    by (simp add: Dict_getitem_def Dict_setitem_def od_getitem_setitem assms(4))
  from no fails same show ?thesis by (intro conjI)
qed

theorem prefix_match_is_sensitive_witness:
  "Oesterreich \<in> set [Oesterreich, ''Scenario''] \<and>
   oesterreich \<noteq> Oesterreich \<and>
   adjust latin1_lower oesterreich = adjust latin1_lower Oesterreich \<and>
   ''['' @ oesterreich @ ''].'' @ ''[Wien]''
     \<in> set [''[Scenario].[Worst Case]'', ''['' @ oesterreich @ ''].'' @ ''[Wien]''] \<and>
   \<not> startswith ''[Scenario].[Worst Case]'' (''['' @ Oesterreich @ ''].'') \<and>
   \<not> startswith (''['' @ oesterreich @ ''].'' @ ''[Wien]'') (''['' @ Oesterreich @ ''].'') \<and>
   sort_addresstuple [Oesterreich, ''Scenario'']
     [''[Scenario].[Worst Case]'', ''['' @ oesterreich @ ''].'' @ ''[Wien]''] = Inl IndexError"
proof -
  let ?label = "''['' @ oesterreich @ ''].'' @ ''[Wien]''"
  have h0: "\<forall>s. count_list (latin1_lower s) CHR '']'' = count_list s CHR '']''"
    by (simp add: latin1_lower_bracket)
  have h1: "Oesterreich \<in> set [Oesterreich, ''Scenario'']" by simp
  have h2: "oesterreich \<noteq> Oesterreich" by (simp add: oesterreich_def Oesterreich_def)
  have h3: "adjust latin1_lower oesterreich = adjust latin1_lower Oesterreich" by code_simp
  have h4: "?label = ''['' @ oesterreich @ ''].'' @ ''[Wien]''" by (rule refl)
  have h5: "?label \<in> set [''[Scenario].[Worst Case]'', ?label]" by simp
  have h7: "\<not> startswith ''[Scenario].[Worst Case]'' (''['' @ Oesterreich @ ''].'')"
    by code_simp
  have h6: "\<forall>item \<in> set [''[Scenario].[Worst Case]'', ?label].
      item \<noteq> ?label \<longrightarrow> \<not> startswith item (''['' @ Oesterreich @ ''].'')"
    using h7 by simp
  note t = prefix_match_is_sensitive[OF h0 h1 h2 h3 h4 h5 h6]
  from t have c1: "\<not> startswith ?label (''['' @ Oesterreich @ ''].'')"
    by (rule conjunct1)
  from t have c2: "sort_addresstuple [Oesterreich, ''Scenario'']
     [''[Scenario].[Worst Case]'', ?label] = Inl IndexError"
    by (rule conjunct2[THEN conjunct1])
  show ?thesis by (intro conjI h1 h2 h3 h5 h7 c1 c2)
qed

section \<open>The cellset flattener\<close>

text \<open>
  Claim C9. A raw cellset with fewer than two axes makes
  \<^verbatim>\<open>build_content_from_cellset\<close> fail: the reads \<^verbatim>\<open>Axes[0]\<close> and \<^verbatim>\<open>Axes[1]\<close> come
  before any iteration, so the call raises \<^verbatim>\<open>IndexError\<close> and no entry is ever stored.
\<close>

theorem fewer_than_two_axes_fails:
  "length (Axes raw) < 2 \<Longrightarrow>
     build_content_from_cellset ulower raw cell_properties top_arg = Inl IndexError"
  by (cases "Axes raw")
    (simp_all add: build_content_from_cellset_def list_index_def Let_def)

theorem fewer_than_two_axes_fails_witness:
  "length (Axes (example_cellset\<lparr>Axes := [axis_of [''[Measure].[Sales]'']]\<rparr>)) < 2 \<and>
   build_content_from_cellset latin1_lower (example_cellset\<lparr>Axes := [axis_of [''[Measure].[Sales]'']]\<rparr>)
     [''Value''] None = Inl IndexError"
proof -
  have h: "length (Axes (example_cellset\<lparr>Axes := [axis_of [''[Measure].[Sales]'']]\<rparr>)) < 2"
    by simp
  from fewer_than_two_axes_fails[OF h] h show ?thesis by (intro conjI)
qed

text \<open>
  Claim C2. For the synthetic cellset (two dimensions, two column tuples, three row
  tuples, no title axis, six cells whose \<^verbatim>\<open>Value\<close> is 0 to 5) the flattener without a
  limit returns six entries; their keys are the coordinates in the order of the cube's
  dimensions, row by row, and the \<^verbatim>\<open>Value\<close> stored for a coordinate is the row-major
  index of its cell.
\<close>

theorem flatten_example:
  "(case build_content_from_cellset ulower example_cellset [''Value''] None of
      Inl e \<Rightarrow> False
    | Inr result \<Rightarrow>
        TuplesDict_len result = 6 \<and>
        TuplesDict_iter result =
          [[''[Year].[2015]'', ''[Measure].[Sales]''], [''[Year].[2015]'', ''[Measure].[Cost]''],
           [''[Year].[2016]'', ''[Measure].[Sales]''], [''[Year].[2016]'', ''[Measure].[Cost]''],
           [''[Year].[2017]'', ''[Measure].[Sales]''], [''[Year].[2017]'', ''[Measure].[Cost]'']] \<and>
        content_value ulower result [''[Year].[2015]'', ''[Measure].[Sales]''] = Inr 0 \<and>
        content_value ulower result [''[Year].[2015]'', ''[Measure].[Cost]''] = Inr 1 \<and>
        content_value ulower result [''[Year].[2016]'', ''[Measure].[Sales]''] = Inr 2 \<and>
        content_value ulower result [''[Year].[2016]'', ''[Measure].[Cost]''] = Inr 3 \<and>
        content_value ulower result [''[Year].[2017]'', ''[Measure].[Sales]''] = Inr 4 \<and>
        content_value ulower result [''[Year].[2017]'', ''[Measure].[Cost]''] = Inr 5)"
  by code_simp

text \<open>
  Claim C7. For the same cellset and the limit 3 the flattener returns three entries,
  those of the first three cells in row-major order; the other coordinates are absent.
\<close>

theorem flatten_example_top_3:
  "(case build_content_from_cellset ulower example_cellset [''Value''] (Some 3) of
      Inl e \<Rightarrow> False
    | Inr result \<Rightarrow>
        TuplesDict_len result = 3 \<and>
        TuplesDict_iter result =
          [[''[Year].[2015]'', ''[Measure].[Sales]''], [''[Year].[2015]'', ''[Measure].[Cost]''],
           [''[Year].[2016]'', ''[Measure].[Sales]'']] \<and>
        content_value ulower result [''[Year].[2015]'', ''[Measure].[Sales]''] = Inr 0 \<and>
        content_value ulower result [''[Year].[2015]'', ''[Measure].[Cost]''] = Inr 1 \<and>
        content_value ulower result [''[Year].[2016]'', ''[Measure].[Sales]''] = Inr 2 \<and>
        content_value ulower result [''[Year].[2016]'', ''[Measure].[Cost]''] = Inl KeyError \<and>
        content_value ulower result [''[Year].[2017]'', ''[Measure].[Sales]''] = Inl KeyError \<and>
        content_value ulower result [''[Year].[2017]'', ''[Measure].[Cost]''] = Inl KeyError)"
  by code_simp

text \<open>
  Claim C1 says that the limit 0 gives an empty result and reads no cell. The code tests
  the limit after a cell has been stored and counted, so the first cell is always
  processed: for the synthetic cellset and the limit 0 the result holds the entry of the
  first cell with its \<^verbatim>\<open>Value\<close>, and when \<^verbatim>\<open>Cells\<close> is empty the read of
  \<^verbatim>\<open>Cells[0]\<close> raises \<^verbatim>\<open>IndexError\<close>.
\<close>

theorem flatten_example_top_0:
  "(case build_content_from_cellset ulower example_cellset [''Value''] (Some 0) of
      Inl e \<Rightarrow> False
    | Inr result \<Rightarrow>
        TuplesDict_len result = 1 \<and>
        TuplesDict_iter result = [[''[Year].[2015]'', ''[Measure].[Sales]'']] \<and>
        content_value ulower result [''[Year].[2015]'', ''[Measure].[Sales]''] = Inr 0) \<and>
   build_content_from_cellset ulower (example_cellset\<lparr>Cells := []\<rparr>) [''Value''] (Some 0)
     = Inl IndexError"
  by code_simp


lemma top_reached_mono: "top_reached top_arg a \<Longrightarrow> a \<le> b \<Longrightarrow> top_reached top_arg b"
  by (cases top_arg) (auto simp: top_reached_def)

lemma take_cells_mono:
  "\<forall>cell \<in> set (take b cells). P cell \<Longrightarrow> a \<le> b \<Longrightarrow> \<forall>cell \<in> set (take a cells). P cell"
  using set_take_subset_set_take[of a b cells] by blast

lemma content_set_property_present:
  assumes "adjust_tuple ulower coordinates \<in> set (map fst content)"
  shows "\<exists>content'. content_set_property ulower content coordinates cell_property val = Inr content'
           \<and> map fst content' = map fst content"
proof -
  from od_getitem_present[OF assms] obtain entry where
    "od_getitem content (adjust_tuple ulower coordinates) = Inr entry" by blast
  then show ?thesis
    using assms
    by (cases entry) (simp add: content_set_property_def od_setitem_keys)
qed

lemma properties_loop_error:
  assumes "properties_loop ulower raw ordinal_cells coordinates props content = Inl e"
    and "adjust_tuple ulower coordinates \<in> set (map fst content)"
    and "ordinal_cells < length (Cells raw) \<Longrightarrow>
           set props \<subseteq> fst ` set (Cells raw ! ordinal_cells)"
  shows "e = IndexError"
  using assms
proof (induction props arbitrary: content)
  case Nil
  then show ?case by simp
next
  case (Cons cell_property rest)
  show ?case
  proof (cases "ordinal_cells < length (Cells raw)")
    case False
    with Cons.prems(1) show ?thesis by (simp add: list_index_def)
  next
    case True
    let ?cell = "Cells raw ! ordinal_cells"
    from Cons.prems(3)[OF True] have "cell_property \<in> set (map fst ?cell)" by auto
    from od_getitem_present[OF this] obtain val where
      val: "od_getitem ?cell cell_property = Inr val" by blast
    from content_set_property_present[OF Cons.prems(2)] obtain content' where
      c: "content_set_property ulower content coordinates cell_property val = Inr content'"
         "map fst content' = map fst content" by blast
    from Cons.prems(1) True val c
    have run: "properties_loop ulower raw ordinal_cells coordinates rest content' = Inl e"
      by (simp add: list_index_def)
    have key: "adjust_tuple ulower coordinates \<in> set (map fst content')"
      using Cons.prems(2) c(2) by simp
    have sub: "ordinal_cells < length (Cells raw) \<Longrightarrow>
        set rest \<subseteq> fst ` set (Cells raw ! ordinal_cells)"
      using Cons.prems(3) by auto
    from Cons.IH[OF run key sub] show ?thesis .
  qed
qed

lemma first_cell_error:
  assumes "properties_loop ulower raw ordinal_cells coordinates props
              (TuplesDict_setitem ulower content coordinates []) = Inl e"
    and "\<forall>cell \<in> set (take (Suc ordinal_cells) (Cells raw)). set props \<subseteq> fst ` set cell"
  shows "e = IndexError"
proof (rule properties_loop_error[OF assms(1)])
  show "adjust_tuple ulower coordinates \<in> set (map fst (TuplesDict_setitem ulower content coordinates []))"
    by (simp add: TuplesDict_setitem_def od_setitem_key_list)
next
  assume "ordinal_cells < length (Cells raw)"
  then have "Cells raw ! ordinal_cells \<in> set (take (Suc ordinal_cells) (Cells raw))"
    by (auto simp: in_set_conv_nth intro!: exI[of _ ordinal_cells])
  with assms(2) show "set props \<subseteq> fst ` set (Cells raw ! ordinal_cells)" by blast
qed

lemma columns_loop_error:
  assumes "columns_loop ulower raw props top_arg dims axe0 e2 e1 n content ordinal_cells ordinal_axe0
             = Inl e"
    and "\<forall>cell \<in> set (take (ordinal_cells + n) (Cells raw)). set props \<subseteq> fst ` set cell"
  shows "e = IndexError"
  using assms
proof (induction n arbitrary: content ordinal_cells ordinal_axe0)
  case 0
  then show ?case by simp
next
  case (Suc n)
  have cells1: "\<forall>cell \<in> set (take (Suc ordinal_cells) (Cells raw)). set props \<subseteq> fst ` set cell"
    by (rule take_cells_mono[OF Suc.prems(2)]) simp
  have cells2: "\<forall>cell \<in> set (take (Suc ordinal_cells + n) (Cells raw)). set props \<subseteq> fst ` set cell"
    using Suc.prems(2) by simp
  from Suc.prems(1) show ?case
    by (auto simp: Let_def split: sum.splits if_splits
        dest: list_index_error sort_addresstuple_error first_cell_error[OF _ cells1]
          Suc.IH[OF _ cells2])
qed

lemma columns_loop_ordinal:
  "columns_loop ulower raw props top_arg dims axe0 e2 e1 n content ordinal_cells ordinal_axe0
     = Inr (content', ordinal_cells') \<Longrightarrow>
   ordinal_cells' \<le> ordinal_cells + n \<and>
   (ordinal_cells' < ordinal_cells + n \<longrightarrow> top_reached top_arg ordinal_cells')"
proof (induction n arbitrary: content ordinal_cells ordinal_axe0)
  case 0
  then show ?case by simp
next
  case (Suc n)
  from Suc.prems show ?case
    by (auto simp: Let_def split: sum.splits if_splits dest!: Suc.IH)
qed

lemma columns_loop_reaches:
  assumes "ordinal_axe0 \<le> j" and "j < ordinal_axe0 + n" and "j < length (Tuples axe0)"
    and "sort_addresstuple dims (map UniqueName (Members (Tuples axe0 ! j)) @ e2 @ e1)
           = Inl IndexError"
    and "j = ordinal_axe0 \<or> \<not> top_reached top_arg (ordinal_cells + (j - ordinal_axe0))"
    and "\<forall>cell \<in> set (take (ordinal_cells + (j - ordinal_axe0)) (Cells raw)).
           set props \<subseteq> fst ` set cell"
  shows "columns_loop ulower raw props top_arg dims axe0 e2 e1 n content ordinal_cells ordinal_axe0
           = Inl IndexError"
  using assms(1,2,5,6)
proof (induction n arbitrary: content ordinal_cells ordinal_axe0)
  case 0
  then show ?case by simp
next
  case (Suc n)
  show ?case
  proof (cases "j = ordinal_axe0")
    case True
    with assms(3,4) show ?thesis by (simp add: list_index_def)
  next
    case False
    with Suc.prems(1) have lt: "ordinal_axe0 < j" by simp
    then have le: "ordinal_cells + 1 \<le> ordinal_cells + (j - ordinal_axe0)" by simp
    from Suc.prems(3) False
    have "\<not> top_reached top_arg (ordinal_cells + (j - ordinal_axe0))" by simp
    with top_reached_mono[OF _ le]
    have nr: "\<not> top_reached top_arg (ordinal_cells + 1)" by blast
    have cells1: "\<forall>cell \<in> set (take (Suc ordinal_cells) (Cells raw)). set props \<subseteq> fst ` set cell"
      using take_cells_mono[OF Suc.prems(4) le] by simp
    have next_state: "columns_loop ulower raw props top_arg dims axe0 e2 e1 n content'
        (ordinal_cells + 1) (ordinal_axe0 + 1) = Inl IndexError" for content'
    proof (rule Suc.IH)
      show "ordinal_axe0 + 1 \<le> j" using lt by simp
      show "j < ordinal_axe0 + 1 + n" using Suc.prems(2) by simp
      have eq: "ordinal_cells + 1 + (j - (ordinal_axe0 + 1)) = ordinal_cells + (j - ordinal_axe0)"
        using lt by simp
      show "j = ordinal_axe0 + 1 \<or>
          \<not> top_reached top_arg (ordinal_cells + 1 + (j - (ordinal_axe0 + 1)))"
        using Suc.prems(3) False unfolding eq by simp
      show "\<forall>cell \<in> set (take (ordinal_cells + 1 + (j - (ordinal_axe0 + 1))) (Cells raw)).
          set props \<subseteq> fst ` set cell"
        using Suc.prems(4) unfolding eq .
    qed
    show ?thesis
      using nr next_state
      by (auto simp: Let_def split: sum.splits
          dest: list_index_error sort_addresstuple_error first_cell_error[OF _ cells1])
  qed
qed


lemma rows_loop_reaches:
  assumes "i < length (Tuples axe1)"
    and "j < nat (Cardinality axe0)" and "j < length (Tuples axe0)"
    and "sort_addresstuple dims
           (map UniqueName (Members (Tuples axe0 ! j)) @ e2
              @ map UniqueName (Members (Tuples axe1 ! i))) = Inl IndexError"
    and "\<forall>cell \<in> set (take (i * nat (Cardinality axe0) + j) (Cells raw)).
           set props \<subseteq> fst ` set cell"
    and "ordinal_axe1 \<le> i" and "i < ordinal_axe1 + m"
    and "ordinal_cells = ordinal_axe1 * nat (Cardinality axe0)"
    and "(i = ordinal_axe1 \<and> j = 0) \<or> \<not> top_reached top_arg (i * nat (Cardinality axe0) + j)"
  shows "rows_loop ulower raw props top_arg dims axe0 axe1 e2 m content ordinal_cells ordinal_axe1
           = Inl IndexError"
  using assms(6-9)
proof (induction m arbitrary: content ordinal_cells ordinal_axe1)
  case 0
  then show ?case by simp
next
  case (Suc m)
  let ?c0 = "nat (Cardinality axe0)"
  show ?case
  proof (cases "i = ordinal_axe1")
    case True
    have "columns_loop ulower raw props top_arg dims axe0 e2
        (map UniqueName (Members (Tuples axe1 ! i))) ?c0 content ordinal_cells 0 = Inl IndexError"
    proof (rule columns_loop_reaches[where j = j])
      show "0 \<le> j" by simp
      show "j < 0 + ?c0" using assms(2) by simp
      show "j < length (Tuples axe0)" by (rule assms(3))
      show "sort_addresstuple dims
           (map UniqueName (Members (Tuples axe0 ! j)) @ e2
              @ map UniqueName (Members (Tuples axe1 ! i))) = Inl IndexError"
        by (rule assms(4))
      show "j = 0 \<or> \<not> top_reached top_arg (ordinal_cells + (j - 0))"
        using Suc.prems(3,4) True by auto
      show "\<forall>cell \<in> set (take (ordinal_cells + (j - 0)) (Cells raw)). set props \<subseteq> fst ` set cell"
        using assms(5) Suc.prems(3) True by simp
    qed
    with True assms(1) show ?thesis by (simp add: list_index_def)
  next
    case False
    with Suc.prems(1) have lt: "ordinal_axe1 < i" by simp
    let ?k = "i * ?c0 + j"
    have "(ordinal_axe1 + 1) * ?c0 \<le> i * ?c0" using lt by (intro mult_le_mono1) simp
    then have le: "ordinal_cells + ?c0 \<le> ?k" using Suc.prems(3) by simp
    from Suc.prems(4) False have nr: "\<not> top_reached top_arg ?k" by simp
    have cells: "\<forall>cell \<in> set (take (ordinal_cells + ?c0) (Cells raw)). set props \<subseteq> fst ` set cell"
      by (rule take_cells_mono[OF assms(5) le])
    from lt assms(1) have tup: "list_index (Tuples axe1) ordinal_axe1
        = Inr (Tuples axe1 ! ordinal_axe1)" by (simp add: list_index_def)
    let ?e1 = "map UniqueName (Members (Tuples axe1 ! ordinal_axe1))"
    show ?thesis
    proof (cases "columns_loop ulower raw props top_arg dims axe0 e2 ?e1 ?c0 content ordinal_cells 0")
      case (Inl e)
      from columns_loop_error[OF Inl cells] have "e = IndexError" .
      with Inl tup show ?thesis by simp
    next
      case (Inr res)
      obtain content' ordinal_cells' where res: "res = (content', ordinal_cells')"
        by (cases res)
      from columns_loop_ordinal[OF Inr[unfolded res]]
      have o1: "ordinal_cells' \<le> ordinal_cells + ?c0"
        and o2: "ordinal_cells' < ordinal_cells + ?c0 \<longrightarrow> top_reached top_arg ordinal_cells'"
        by simp_all
      from o1 le have "ordinal_cells' \<le> ?k" by simp
      with nr top_reached_mono have nr': "\<not> top_reached top_arg ordinal_cells'" by blast
      with o1 o2 have eq: "ordinal_cells' = (ordinal_axe1 + 1) * ?c0"
        using Suc.prems(3) by auto
      have "rows_loop ulower raw props top_arg dims axe0 axe1 e2 m content' ordinal_cells'
          (ordinal_axe1 + 1) = Inl IndexError"
      proof (rule Suc.IH)
        show "ordinal_axe1 + 1 \<le> i" using lt by simp
        show "i < ordinal_axe1 + 1 + m" using Suc.prems(2) by simp
        show "ordinal_cells' = (ordinal_axe1 + 1) * ?c0" by (rule eq)
        show "(i = ordinal_axe1 + 1 \<and> j = 0) \<or> \<not> top_reached top_arg ?k" using nr by simp
      qed
      with Inr res tup nr' show ?thesis by simp
    qed
  qed
qed

text \<open>
  Claim C6. When some name of \<^verbatim>\<open>dimension_order\<close> has no label in the unsorted tuple
  that starts with \<^verbatim>\<open>'[' + dimension + '].'\<close>, \<^verbatim>\<open>sort_addresstuple\<close> raises the
  \<^verbatim>\<open>IndexError\<close> of \<^verbatim>\<open>address_element[0]\<close> (\<^verbatim>\<open>DimensionNotFound\<close>). The flattener
  fails with it as soon as it produces such a coordinate: if the coordinate of row \<open>i\<close>
  and column \<open>j\<close> lacks an element of a cube dimension, the cell index
  \<open>k = i * columns + j\<close> is the first or lies below the limit, and the cell records
  before \<open>k\<close> hold the requested properties (so that no \<^verbatim>\<open>KeyError\<close> comes first), the
  whole call raises \<^verbatim>\<open>IndexError\<close>.
\<close>

theorem missing_dimension_fails:
  "(d \<in> set dimension_order \<and>
    (\<forall>item \<in> set unsorted_addresstuple. \<not> startswith item (''['' @ d @ ''].'')) \<longrightarrow>
      sort_addresstuple dimension_order unsorted_addresstuple = Inl IndexError) \<and>
   (list_index (Axes raw) 0 = Inr axe0_as_dict \<and> list_index (Axes raw) 1 = Inr axe1_as_dict \<and>
    title_elements raw = Inr elements_on_title \<and>
    i < nat (Cardinality axe1_as_dict) \<and> i < length (Tuples axe1_as_dict) \<and>
    j < nat (Cardinality axe0_as_dict) \<and> j < length (Tuples axe0_as_dict) \<and>
    coordinates = map UniqueName (Members (Tuples axe0_as_dict ! j)) @ elements_on_title
                    @ map UniqueName (Members (Tuples axe1_as_dict ! i)) \<and>
    dim \<in> set (map Name (Dimensions (Cube raw))) \<and>
    (\<forall>item \<in> set coordinates. \<not> startswith item (''['' @ dim @ ''].'')) \<and>
    k = i * nat (Cardinality axe0_as_dict) + j \<and>
    (k = 0 \<or> \<not> top_reached top_arg k) \<and>
    (\<forall>cell \<in> set (take k (Cells raw)). set cell_properties \<subseteq> fst ` set cell) \<longrightarrow>
      build_content_from_cellset ulower raw cell_properties top_arg = Inl IndexError)"
proof (intro conjI impI)
  assume "d \<in> set dimension_order \<and>
    (\<forall>item \<in> set unsorted_addresstuple. \<not> startswith item (''['' @ d @ ''].''))"
  then show "sort_addresstuple dimension_order unsorted_addresstuple = Inl IndexError"
    unfolding sort_addresstuple_def by (intro sort_addresstuple_loop_missing[of d]) simp_all
next
  assume a: "list_index (Axes raw) 0 = Inr axe0_as_dict \<and> list_index (Axes raw) 1 = Inr axe1_as_dict \<and>
    title_elements raw = Inr elements_on_title \<and>
    i < nat (Cardinality axe1_as_dict) \<and> i < length (Tuples axe1_as_dict) \<and>
    j < nat (Cardinality axe0_as_dict) \<and> j < length (Tuples axe0_as_dict) \<and>
    coordinates = map UniqueName (Members (Tuples axe0_as_dict ! j)) @ elements_on_title
                    @ map UniqueName (Members (Tuples axe1_as_dict ! i)) \<and>
    dim \<in> set (map Name (Dimensions (Cube raw))) \<and>
    (\<forall>item \<in> set coordinates. \<not> startswith item (''['' @ dim @ ''].'')) \<and>
    k = i * nat (Cardinality axe0_as_dict) + j \<and>
    (k = 0 \<or> \<not> top_reached top_arg k) \<and>
    (\<forall>cell \<in> set (take k (Cells raw)). set cell_properties \<subseteq> fst ` set cell)"
  let ?dims = "map Name (Dimensions (Cube raw))"
  from a have coords: "coordinates = map UniqueName (Members (Tuples axe0_as_dict ! j)) @ elements_on_title
                    @ map UniqueName (Members (Tuples axe1_as_dict ! i))" by simp
  from a have "dim \<in> set ?dims"
    and "\<forall>item \<in> set coordinates. \<not> startswith item (''['' @ dim @ ''].'')" by simp_all
  then have "sort_addresstuple ?dims coordinates = Inl IndexError"
    unfolding sort_addresstuple_def by (rule sort_addresstuple_loop_missing)
  then have sort: "sort_addresstuple ?dims
      (map UniqueName (Members (Tuples axe0_as_dict ! j)) @ elements_on_title
         @ map UniqueName (Members (Tuples axe1_as_dict ! i))) = Inl IndexError"
    unfolding coords .
  from a have k: "k = i * nat (Cardinality axe0_as_dict) + j" by simp
  from a have j: "j < nat (Cardinality axe0_as_dict)" by simp
  have first: "i = 0 \<and> j = 0" if "k = 0"
    using that k j by (cases "nat (Cardinality axe0_as_dict)") auto
  have "rows_loop ulower raw cell_properties top_arg ?dims axe0_as_dict axe1_as_dict elements_on_title
      (nat (Cardinality axe1_as_dict)) (TuplesDict_init ulower []) 0 0 = Inl IndexError"
  proof (rule rows_loop_reaches[where i = i and j = j])
    show "i < length (Tuples axe1_as_dict)" using a by simp
    show "j < nat (Cardinality axe0_as_dict)" by (rule j)
    show "j < length (Tuples axe0_as_dict)" using a by simp
    show "sort_addresstuple ?dims
      (map UniqueName (Members (Tuples axe0_as_dict ! j)) @ elements_on_title
         @ map UniqueName (Members (Tuples axe1_as_dict ! i))) = Inl IndexError" by (rule sort)
    show "\<forall>cell \<in> set (take (i * nat (Cardinality axe0_as_dict) + j) (Cells raw)).
        set cell_properties \<subseteq> fst ` set cell" using a by simp
    show "0 \<le> i" by simp
    show "i < 0 + nat (Cardinality axe1_as_dict)" using a by simp
    show "0 = 0 * nat (Cardinality axe0_as_dict)" by simp
    from a have "k = 0 \<or> \<not> top_reached top_arg k" by (elim conjE)
    then show "(i = 0 \<and> j = 0) \<or> \<not> top_reached top_arg (i * nat (Cardinality axe0_as_dict) + j)"
    proof
      assume "k = 0"
      from first[OF this] show ?thesis by simp
    next
      assume "\<not> top_reached top_arg k"
      then show ?thesis unfolding k by simp
    qed
  qed
  with a show "build_content_from_cellset ulower raw cell_properties top_arg = Inl IndexError"
    by (simp add: build_content_from_cellset_def Let_def)
qed

theorem missing_dimension_fails_witness:
  "''Year'' \<in> set [''Year'', ''Measure''] \<and>
   sort_addresstuple [''Year'', ''Measure''] [''[Measure].[Sales]'', ''[Yr].[2016]'']
     = Inl IndexError \<and>
   build_content_from_cellset latin1_lower mismatched_cellset [''Value''] None = Inl IndexError \<and>
   build_content_from_cellset latin1_lower mismatched_cellset [''Value''] (Some 3) = Inl IndexError"
proof -
  let ?axe0 = "axis_of [''[Measure].[Sales]'', ''[Measure].[Cost]'']"
  let ?axe1 = "axis_of [''[Year].[2015]'', ''[Yr].[2016]'', ''[Year].[2017]'']"
  let ?coordinates = "[''[Measure].[Sales]'', ''[Yr].[2016]'']"
  have s1: "''Year'' \<in> set [''Year'', ''Measure'']" by simp
  have s2: "\<forall>item \<in> set ?coordinates. \<not> startswith item (''['' @ ''Year'' @ ''].'')"
    by code_simp
  have f1: "list_index (Axes mismatched_cellset) 0 = Inr ?axe0" by code_simp
  have f2: "list_index (Axes mismatched_cellset) 1 = Inr ?axe1" by code_simp
  have f3: "title_elements mismatched_cellset = Inr []" by code_simp
  have f4: "1 < nat (Cardinality ?axe1)" "1 < length (Tuples ?axe1)"
    "0 < nat (Cardinality ?axe0)" "0 < length (Tuples ?axe0)" by code_simp+
  have f5: "?coordinates = map UniqueName (Members (Tuples ?axe0 ! 0)) @ []
      @ map UniqueName (Members (Tuples ?axe1 ! 1))" by code_simp
  have f6: "''Year'' \<in> set (map Name (Dimensions (Cube mismatched_cellset)))" by code_simp
  have f7: "(2::nat) = 1 * nat (Cardinality ?axe0) + 0" by code_simp
  have f8: "2 = (0::nat) \<or> \<not> top_reached None 2" "2 = (0::nat) \<or> \<not> top_reached (Some 3) 2"
    by code_simp+
  have f9: "\<forall>cell \<in> set (take 2 (Cells mismatched_cellset)). set [''Value''] \<subseteq> fst ` set cell"
    by code_simp
  note t = missing_dimension_fails
    [where d = "''Year''" and dimension_order = "[''Year'', ''Measure'']"
      and unsorted_addresstuple = ?coordinates
      and raw = mismatched_cellset and axe0_as_dict = ?axe0 and axe1_as_dict = ?axe1
      and elements_on_title = "[]" and i = 1 and j = 0 and coordinates = ?coordinates
      and dim = "''Year''" and k = 2 and cell_properties = "[''Value'']"]
  have c1: "sort_addresstuple [''Year'', ''Measure''] ?coordinates = Inl IndexError"
    by (rule mp[OF conjunct1[OF t[where top_arg = None]]]) (intro conjI s1 s2)
  have c2: "build_content_from_cellset latin1_lower mismatched_cellset [''Value''] None = Inl IndexError"
    by (rule mp[OF conjunct2[OF t[where top_arg = None]]])
      (intro conjI f1 f2 f3 f4 f5 f6 s2 f7 f8 f9)
  have c3: "build_content_from_cellset latin1_lower mismatched_cellset [''Value''] (Some 3) = Inl IndexError"
    by (rule mp[OF conjunct2[OF t[where top_arg = "Some 3"]]])
      (intro conjI f1 f2 f3 f4 f5 f6 s2 f7 f8 f9)
  show ?thesis by (intro conjI s1 c1 c2 c3)
qed

end
